theory Spec2Isabelle
  imports Complex_Main
begin

section \<open>The plate engine of PlaTec (src/platec_src/plate.cpp)\<close>

text \<open>
  Conventions of the embedding.
  \<^item> \<open>float\<close> and \<open>double\<close> values are real numbers: every arithmetic operation is
    the exact one, so rounding, infinities and NaN are not represented. A quotient whose
    divisor is zero is HOL's \<open>x / 0 = 0\<close>; theorems that depend on such a quotient say
    so in their hypotheses.
  \<^item> \<open>size_t\<close> values are natural numbers below \<open>2 ^ 64\<close>. Subtractions that the
    source lets wrap around are written with \<open>sub_size_t\<close>; sums and products of raster
    coordinates are far below \<open>2 ^ 64\<close> and are taken in \<open>nat\<close>.
  \<^item> A method that mutates \<open>*this\<close> takes the plate and returns the new one. A thrown
    exception, a failed \<open>assert\<close> and a read or write outside an array are values of
    type \<open>error\<close>.
  \<^item> The generator \<open>_randsource\<close> (\<open>std::mt19937\<close>) is the sequence of its raw
    outputs together with the number of outputs already drawn.
\<close>

datatype error = InvalidArgument | AssertionFailure | OutOfRange

subsection \<open>Machine integers\<close>

definition SIZE_MAX :: nat where
  "SIZE_MAX = 2 ^ 64 - 1"

text \<open>\<open>a - b\<close> on \<open>size_t\<close>.\<close>

definition sub_size_t :: "nat \<Rightarrow> nat \<Rightarrow> nat" where
  "sub_size_t a b = (a + 2 ^ 64 - b mod 2 ^ 64) mod 2 ^ 64"

text \<open>\<open>(int)f\<close> for a float \<open>f\<close>: truncation towards zero.\<close>

definition int_of_float :: "real \<Rightarrow> int" where
  "int_of_float f = (if 0 \<le> f then \<lfloor>f\<rfloor> else \<lceil>f\<rceil>)"

text \<open>\<open>(size_t)i\<close> for an \<open>int\<close> \<open>i\<close>: the value modulo \<open>2 ^ 64\<close>.\<close>

definition size_t_of_int :: "int \<Rightarrow> nat" where
  "size_t_of_int i = nat (i mod 2 ^ 64)"

text \<open>\<open>-(c)\<close> used as a mask: \<open>v & -(c)\<close> is \<open>v\<close> when \<open>c\<close> holds and \<open>0\<close> otherwise.\<close>

definition mask_if :: "bool \<Rightarrow> nat \<Rightarrow> nat" where
  "mask_if c v = (if c then v else 0)"

text \<open>A comparison used as a number: \<open>1\<close> when it holds, \<open>0\<close> otherwise.\<close>

definition bool_real :: "bool \<Rightarrow> real" where
  "bool_real c = (if c then 1 else 0)"

subsection \<open>The random source\<close>

text \<open>\<open>std::mt19937::max()\<close>.\<close>

definition rand_max :: nat where
  "rand_max = 4294967295"

subsection \<open>World dimension, rectangles, segment data\<close>

text \<open>
  The headers \<open>plate.hpp\<close>, \<open>rectangle.hpp\<close>, \<open>heightmap.hpp\<close> and the classes they
  declare are not part of the sources read here. Their data is taken from the way
  \<open>plate.cpp\<close> uses it; the few operations that \<open>plate.cpp\<close> calls are modelled from
  the specification, each marked as such.
\<close>

record world_dimension =
  wd_width :: nat
  wd_height :: nat

text \<open>
  Modelled from the spec: \<open>WorldDimension::contains\<close> is not in the sources;
  section 4.1 lists \<open>contains(x,y)\<close> for the world of width \<open>W\<close> and height \<open>H\<close>.
\<close>

definition wd_contains :: "world_dimension \<Rightarrow> nat \<Rightarrow> nat \<Rightarrow> bool" where
  "wd_contains wd x y = (x < wd_width wd \<and> y < wd_height wd)"

text \<open>
  Modelled from the spec: \<open>WorldDimension::normalize\<close> is not in the sources;
  section 4.1 gives \<open>wrapX(x) = ((x mod W) + W) mod W\<close> and \<open>wrapY\<close> alike.
\<close>

definition wd_normalize :: "world_dimension \<Rightarrow> nat \<Rightarrow> nat \<Rightarrow> nat \<times> nat" where
  "wd_normalize wd x y =
     (((x mod wd_width wd) + wd_width wd) mod wd_width wd,
      ((y mod wd_height wd) + wd_height wd) mod wd_height wd)"

record rectangle =
  r_world :: world_dimension
  r_left :: nat
  r_right :: nat
  r_top :: nat
  r_bottom :: nat

definition Rectangle :: "world_dimension \<Rightarrow> nat \<Rightarrow> nat \<Rightarrow> nat \<Rightarrow> nat \<Rightarrow> rectangle" where
  "Rectangle wd l r t b =
     \<lparr>r_world = wd, r_left = l, r_right = r, r_top = t, r_bottom = b\<rparr>"

text \<open>
  Modelled from the spec: \<open>Rectangle::getMapIndex\<close> is not in the sources. Section 4.1:
  given a rectangle in world space (possibly crossing the seam) and a world coordinate,
  it returns either the row-major index within that rectangle together with the
  coordinate in rectangle-local form, or the out-of-range sentinel (the maximum
  representable integer), the coordinate then left as it was. The rectangle
  \<open>plate::getMapIndex\<close> builds has \<open>right = left + width\<close> and \<open>bottom = top + height\<close>.
\<close>

definition rect_getMapIndex :: "rectangle \<Rightarrow> nat \<Rightarrow> nat \<Rightarrow> nat \<times> nat \<times> nat" where
  "rect_getMapIndex r x y =
     (let W = wd_width (r_world r); H = wd_height (r_world r);
          w = r_right r - r_left r; h = r_bottom r - r_top r;
          lx = (x mod W + W - r_left r mod W) mod W;
          ly = (y mod H + H - r_top r mod H) mod H
      in if lx < w \<and> ly < h then (ly * w + lx, lx, ly) else (SIZE_MAX, x, y))"

record segmentData =
  seg_rect :: rectangle
  area :: nat
  coll_count :: nat

definition getLeft :: "segmentData \<Rightarrow> nat" where "getLeft s = r_left (seg_rect s)"
definition getRight :: "segmentData \<Rightarrow> nat" where "getRight s = r_right (seg_rect s)"
definition getTop :: "segmentData \<Rightarrow> nat" where "getTop s = r_top (seg_rect s)"
definition getBottom :: "segmentData \<Rightarrow> nat" where "getBottom s = r_bottom (seg_rect s)"

text \<open>
  Modelled from the spec: \<open>segmentData::isEmpty\<close> is not in the sources; section 4.3:
  \<open>isEmpty()\<close> returns \<open>area == 0\<close>.
\<close>

definition isEmpty :: "segmentData \<Rightarrow> bool" where
  "isEmpty s = (area s = 0)"

text \<open>
  Modelled from the spec: \<open>segmentData::enlarge_to_contain\<close> is not in the sources;
  section 4.3: it grows the descriptor's bounding box monotonically, to contain \<open>(x,y)\<close>.
\<close>

definition enlarge_to_contain :: "segmentData \<Rightarrow> nat \<Rightarrow> nat \<Rightarrow> segmentData" where
  "enlarge_to_contain s x y =
     s\<lparr>seg_rect := (seg_rect s)
          \<lparr>r_left := min (r_left (seg_rect s)) x, r_right := max (r_right (seg_rect s)) x,
           r_top := min (r_top (seg_rect s)) y, r_bottom := max (r_bottom (seg_rect s)) y\<rparr>\<rparr>"

text \<open>
  Modelled from the spec: \<open>segmentData::shift\<close> is not in the sources; section 4.3:
  it translates the descriptor's box by \<open>(dx,dy)\<close>.
\<close>

definition shift :: "segmentData \<Rightarrow> nat \<Rightarrow> nat \<Rightarrow> segmentData" where
  "shift s ddx ddy =
     s\<lparr>seg_rect := (seg_rect s)
          \<lparr>r_left := r_left (seg_rect s) + ddx, r_right := r_right (seg_rect s) + ddx,
           r_top := r_top (seg_rect s) + ddy, r_bottom := r_bottom (seg_rect s) + ddy\<rparr>\<rparr>"

subsection \<open>The plate\<close>

text \<open>
  The members of \<open>class plate\<close>, as \<open>plate.cpp\<close> uses them. \<open>left\<close> and \<open>top\<close> are
  floats: \<open>move\<close> adds \<open>vx * velocity\<close> to them and \<open>getMapIndex\<close> reads them through
  \<open>(size_t)(int)left\<close>. The rasters \<open>map\<close>, \<open>age_map\<close> and \<open>segment\<close> are row-major
  lists. \<open>map\<close> and \<open>top\<close> carry the suffix \<open>_p\<close>, their names being taken in HOL.
\<close>

record plate =
  randsource :: "nat \<Rightarrow> nat"
  rand_pos :: nat
  width :: nat
  height :: nat
  mass :: real
  left :: real
  top_p :: real
  cx :: real
  cy :: real
  dx :: real
  dy :: real
  vx :: real
  vy :: real
  velocity :: real
  rot_dir :: real
  map_p :: "real list"
  age_map :: "nat list"
  segment :: "nat list"
  seg_data :: "segmentData list"
  worldDimension :: world_dimension

text \<open>\<open>_randsource()\<close>: the next raw output, and the plate with the generator advanced.\<close>

definition rand_next :: "plate \<Rightarrow> nat \<times> plate" where
  "rand_next p = (randsource p (rand_pos p), p\<lparr>rand_pos := Suc (rand_pos p)\<rparr>)"

subsection \<open>Construction\<close>

text \<open>The cells of a \<open>w\<close> by \<open>h\<close> raster in the order of the two nested loops
  \<open>for y ... for x ...\<close>.\<close>

definition cells :: "nat \<Rightarrow> nat \<Rightarrow> (nat \<times> nat) list" where
  "cells w h = concat (map (\<lambda>y. map (\<lambda>x. (x, y)) [0..<w]) [0..<h])"

text \<open>
  One pass of the body of the constructor's loop at cell \<open>(x,y)\<close>, \<open>k = y * width + x\<close>:
  \<open>mass += map[k] = m[k]; cx += x * m[k]; cy += y * m[k];
  age_map.set(x, y, plate_age & -(m[k] > 0))\<close>.
\<close>

definition ctor_step :: "(nat \<Rightarrow> real) \<Rightarrow> nat \<Rightarrow> plate \<Rightarrow> nat \<times> nat \<Rightarrow> plate" where
  "ctor_step m plate_age p c =
     (case c of (x, y) \<Rightarrow>
        let k = y * width p + x in
        p\<lparr>map_p := (map_p p)[k := m k],
          mass := mass p + m k,
          cx := cx p + real x * m k,
          cy := cy p + real y * m k,
          age_map := (age_map p)[k := mask_if (m k > 0) plate_age]\<rparr>)"

text \<open>
  \<open>plate::plate(seed, m, w, h, _x, _y, plate_age, worldDimension)\<close>. The buffer \<open>m\<close> is
  a pointer: \<open>None\<close> is \<open>NULL\<close>, \<open>Some f\<close> an array read by index. \<open>rs\<close> is the
  output sequence of the generator seeded with \<open>seed\<close>. The members \<open>_x\<close>, \<open>_y\<close> and
  \<open>plate_age\<close> are unsigned, so the two tests \<open>< 0\<close> on them never fire.
\<close>

definition plate_ctor ::
  "(nat \<Rightarrow> nat) \<Rightarrow> (nat \<Rightarrow> real) option \<Rightarrow> nat \<Rightarrow> nat \<Rightarrow> nat \<Rightarrow> nat \<Rightarrow> nat \<Rightarrow>
     world_dimension \<Rightarrow> error + plate" where
  "plate_ctor rs m w h x0 y0 plate_age wd =
     (case m of
        None \<Rightarrow> Inl InvalidArgument
      | Some buf \<Rightarrow>
          if w \<le> 0 \<or> h \<le> 0 then Inl InvalidArgument
          else
            let plate_area = w * h;
                angle = 2 * pi * real (rs 0) / real rand_max;
                p0 = \<lparr>randsource = rs, rand_pos = 2, width = w, height = h,
                      mass = 0, left = real x0, top_p = real y0, cx = 0, cy = 0,
                      dx = 0, dy = 0,
                      vx = cos angle * 1, vy = sin angle * 1,
                      velocity = 1,
                      rot_dir = (if odd (rs 1) then 1 else -1),
                      map_p = replicate plate_area 0,
                      age_map = replicate plate_area 0,
                      segment = replicate plate_area SIZE_MAX,
                      seg_data = [],
                      worldDimension = wd\<rparr>;
                p1 = foldl (ctor_step buf plate_age) p0 (cells w h)
            in Inr (p1\<lparr>cx := cx p1 / mass p1, cy := cy p1 / mass p1\<rparr>))"

subsection \<open>Kinematics\<close>

text \<open>
  \<open>plate::move()\<close>. The two \<open>assert\<close>s read the float origin as \<open>size_t\<close> coordinates.
  When \<open>(vx + dx, vy + dy)\<close> is the null vector, \<open>len\<close> is 0 and the source divides by
  it: the direction is then NaN, which the model does not represent, so statements about
  the direction after the call assume \<open>len > 0\<close>.
\<close>

definition size_t_of_float :: "real \<Rightarrow> nat" where
  "size_t_of_float f = size_t_of_int (int_of_float f)"

definition move :: "plate \<Rightarrow> error + plate" where
  "move p =
     (let W = wd_width (worldDimension p); H = wd_height (worldDimension p);
          vx1 = vx p + dx p;
          vy1 = vy p + dy p;
          len = sqrt (vx1 * vx1 + vy1 * vy1);
          vx2 = vx1 / len;
          vy2 = vy1 / len;
          velocity1 = velocity p + (len - 1);
          velocity2 = velocity1 * bool_real (velocity1 > 0);
          world_avg_side = (W + H) div 2;
          alpha = rot_dir p * velocity2 / (real world_avg_side * 0.33);
          c = cos (alpha * velocity2);
          s = sin (alpha * velocity2);
          vx3 = vx2 * c - vy2 * s;
          vy3 = vy2 * c + vx2 * s
      in if \<not> wd_contains (worldDimension p) (size_t_of_float (left p)) (size_t_of_float (top_p p))
         then Inl AssertionFailure
         else
           let left1 = left p + vx3 * velocity2;
               left2 = left1 + (if left1 > 0 then 0 else real W);
               left3 = left2 - (if left2 < real W then 0 else real W);
               top1 = top_p p + vy3 * velocity2;
               top2 = top1 + (if top1 > 0 then 0 else real H);
               top3 = top2 - (if top2 < real H then 0 else real H)
           in if \<not> wd_contains (worldDimension p) (size_t_of_float left3) (size_t_of_float top3)
              then Inl AssertionFailure
              else Inr (p\<lparr>vx := vx3, vy := vy3, dx := 0, dy := 0, velocity := velocity2,
                          left := left3, top_p := top3\<rparr>))"

subsection \<open>Index arithmetic of a plate\<close>

text \<open>\<open>plate::getMapIndex(px, py)\<close>: the index, and the coordinates as the call leaves them.\<close>

definition getMapIndex :: "plate \<Rightarrow> nat \<Rightarrow> nat \<Rightarrow> nat \<times> nat \<times> nat" where
  "getMapIndex p px py =
     (let ilft = size_t_of_int (int_of_float (left p));
          itop = size_t_of_int (int_of_float (top_p p));
          irgt = ilft + width p;
          ibtm = itop + height p;
          rect = Rectangle (worldDimension p) ilft irgt itop ibtm
      in rect_getMapIndex rect px py)"

text \<open>\<open>plate::xMod\<close> and \<open>plate::yMod\<close>, on \<open>size_t\<close>.\<close>

definition xMod :: "plate \<Rightarrow> nat \<Rightarrow> nat" where
  "xMod p x = ((x + wd_width (worldDimension p)) mod 2 ^ 64) mod wd_width (worldDimension p)"

definition yMod :: "plate \<Rightarrow> nat \<Rightarrow> nat" where
  "yMod p y = ((y + wd_height (worldDimension p)) mod 2 ^ 64) mod wd_height (worldDimension p)"

text \<open>\<open>plate::getCrust(x, y)\<close>.\<close>

definition getCrust :: "plate \<Rightarrow> nat \<Rightarrow> nat \<Rightarrow> error + real" where
  "getCrust p x y =
     (case getMapIndex p x y of (index, _, _) \<Rightarrow>
        if index < SIZE_MAX
        then (if index < length (map_p p) then Inr (map_p p ! index) else Inl OutOfRange)
        else Inr 0)"

subsection \<open>Setting crust, with growth of the raster\<close>

text \<open>
  \<open>memcpy(&dst[dest_i], &src[src_i], n * sizeof(...))\<close>: \<open>n\<close> entries of \<open>src\<close> from
  \<open>src_i\<close> on replace those of \<open>dst\<close> from \<open>dest_i\<close> on.
\<close>

definition memcpy :: "'a list \<Rightarrow> nat \<Rightarrow> 'a list \<Rightarrow> nat \<Rightarrow> nat \<Rightarrow> error + 'a list" where
  "memcpy dst dest_i src src_i n =
     (if dest_i + n \<le> length dst \<and> src_i + n \<le> length src
      then Inr (take dest_i dst @ take n (drop src_i src) @ drop (dest_i + n) dst)
      else Inl OutOfRange)"

text \<open>
  The loop \<open>for (j = 0; j < old_height; ++j)\<close> of \<open>setCrust\<close> that copies the old raster
  into the new one, row by row, for one of the three rasters.
\<close>

fun copy_rows :: "nat \<Rightarrow> nat \<Rightarrow> nat \<Rightarrow> nat \<Rightarrow> 'a list \<Rightarrow> nat list \<Rightarrow> 'a list \<Rightarrow> error + 'a list" where
  "copy_rows new_width old_width d_lft d_top src [] dst = Inr dst"
| "copy_rows new_width old_width d_lft d_top src (j # js) dst =
     (let dest_i = (d_top + j) * new_width + d_lft;
          src_i = j * old_width
      in case memcpy dst dest_i src src_i old_width of
           Inl e \<Rightarrow> Inl e
         | Inr dst' \<Rightarrow> copy_rows new_width old_width d_lft d_top src js dst')"

text \<open>\<open>((d > 0) + (d >> 3)) << 3\<close>: the scaling of a distance to a multiple of 8.\<close>

definition scale8 :: "nat \<Rightarrow> nat" where
  "scale8 d = ((if d > 0 then 1 else 0) + d div 8) * 8"

text \<open>
  The four distances \<open>d_lft, d_rgt, d_top, d_btm\<close> of the world point \<open>(x,y)\<close> (already
  normalised) from the edges of the plate, the larger of each pair set to zero, after the
  step \<open>// Scale all changes to multiple of 8\<close>.
\<close>

definition growth_scaled :: "plate \<Rightarrow> nat \<Rightarrow> nat \<Rightarrow> nat \<times> nat \<times> nat \<times> nat" where
  "growth_scaled p x y =
     (let W = wd_width (worldDimension p); H = wd_height (worldDimension p);
          ilft = size_t_of_float (left p);
          itop = size_t_of_float (top_p p);
          irgt = sub_size_t (ilft + width p) 1;
          ibtm = sub_size_t (itop + height p) 1;
          lft = sub_size_t ilft x;
          rgt = sub_size_t (mask_if (x < ilft) W + x) irgt;
          tp = sub_size_t itop y;
          btm = sub_size_t (mask_if (y < itop) H + y) ibtm;
          d_lft = mask_if (lft < W) (mask_if (lft < rgt) lft);
          d_rgt = mask_if (rgt < W) (mask_if (rgt \<le> lft) rgt);
          d_top = mask_if (tp < H) (mask_if (tp < btm) tp);
          d_btm = mask_if (btm < H) (mask_if (btm \<le> tp) btm)
      in (scale8 d_lft, scale8 d_rgt, scale8 d_top, scale8 d_btm))"

text \<open>
  The four distances by which \<open>setCrust\<close> grows the raster: the scaled distances, after
  the two tests \<open>// Make sure plate doesn't grow bigger than the system it's in!\<close>.
\<close>

definition growth :: "plate \<Rightarrow> nat \<Rightarrow> nat \<Rightarrow> nat \<times> nat \<times> nat \<times> nat" where
  "growth p x y =
     (case growth_scaled p x y of (d_lft1, d_rgt1, d_top1, d_btm1) \<Rightarrow>
        let W = wd_width (worldDimension p); H = wd_height (worldDimension p);
            (d_lft2, d_rgt2) =
               (if width p + d_lft1 + d_rgt1 > W then (0, sub_size_t W (width p))
                else (d_lft1, d_rgt1));
            (d_top2, d_btm2) =
               (if height p + d_top1 + d_btm1 > H then (0, sub_size_t H (height p))
                else (d_top1, d_btm1))
        in (d_lft2, d_rgt2, d_top2, d_btm2))"

text \<open>
  The branch \<open>if (index >= width*height)\<close> of \<open>setCrust\<close>: the raster grows so as to
  contain the world point \<open>(x,y)\<close>. The result is the grown plate and the new index of
  the point.
\<close>

definition grow :: "plate \<Rightarrow> nat \<Rightarrow> nat \<Rightarrow> real \<Rightarrow> error + plate \<times> nat" where
  "grow p x y z =
     (if \<not> z > 0 then Inl AssertionFailure
      else
        (case wd_normalize (worldDimension p) x y of (x1, y1) \<Rightarrow>
        (case growth p x1 y1 of (d_lft, d_rgt, d_top, d_btm) \<Rightarrow>
          if \<not> d_lft + d_rgt + d_top + d_btm \<noteq> 0 then Inl AssertionFailure
          else
            let W = wd_width (worldDimension p); H = wd_height (worldDimension p);
                old_width = width p;
                old_height = height p;
                left1 = left p - real d_lft;
                left2 = left1 + (if left1 \<ge> 0 then 0 else real W);
                new_width = width p + d_lft + d_rgt;
                top1 = top_p p - real d_top;
                top2 = top1 + (if top1 \<ge> 0 then 0 else real H);
                new_height = height p + d_top + d_btm;
                rows = [0..<old_height]
            in
              (case copy_rows new_width old_width d_lft d_top (map_p p) rows
                      (replicate (new_width * new_height) 0) of
                 Inl e \<Rightarrow> Inl e
               | Inr tmph \<Rightarrow>
              (case copy_rows new_width old_width d_lft d_top (age_map p) rows
                      (replicate (new_width * new_height) 0) of
                 Inl e \<Rightarrow> Inl e
               | Inr tmpa \<Rightarrow>
              (case copy_rows new_width old_width d_lft d_top (segment p) rows
                      (replicate (new_width * new_height) SIZE_MAX) of
                 Inl e \<Rightarrow> Inl e
               | Inr tmps \<Rightarrow>
                 let p1 = p\<lparr>left := left2, width := new_width, top_p := top2,
                            height := new_height, map_p := tmph, age_map := tmpa,
                            segment := tmps,
                            seg_data := map (\<lambda>s. shift s d_lft d_top) (seg_data p)\<rparr>
                 in (case getMapIndex p1 x1 y1 of (index, _, _) \<Rightarrow>
                      if \<not> index < width p1 * height p1 then Inl AssertionFailure
                      else Inr (p1, index))))))))"

text \<open>
  The last lines of \<open>setCrust\<close>, from \<open>// Update crust's age\<close> on: the age and the
  height of the cell \<open>index\<close> are set, and the mass follows. \<open>z\<close> is the height
  already clamped at 0.
\<close>

definition update_cell :: "plate \<Rightarrow> nat \<Rightarrow> real \<Rightarrow> nat \<Rightarrow> error + plate" where
  "update_cell p index z t =
     (if \<not> (index < length (map_p p) \<and> index < length (age_map p)) then Inl OutOfRange
      else
        let old_crust = (map_p p ! index > 0);
            new_crust = (z > 0);
            t1 = (if old_crust
                  then size_t_of_float
                         ((map_p p ! index * real (age_map p ! index) + z * real t) /
                          (map_p p ! index + z))
                  else t);
            age1 = (if new_crust then t1 else age_map p ! index)
        in Inr (p\<lparr>age_map := (age_map p)[index := age1],
                   mass := mass p - map_p p ! index + z,
                   map_p := (map_p p)[index := z]\<rparr>))"

text \<open>\<open>plate::setCrust(x, y, z, t)\<close>.\<close>

definition setCrust :: "plate \<Rightarrow> nat \<Rightarrow> nat \<Rightarrow> real \<Rightarrow> nat \<Rightarrow> error + plate" where
  "setCrust p x y z t =
     (let z1 = (if z < 0 then 0 else z) in
      (case getMapIndex p x y of (index0, _, _) \<Rightarrow>
      (case (if index0 \<ge> width p * height p then grow p x y z1 else Inr (p, index0)) of
        Inl e \<Rightarrow> Inl e
      | Inr (p1, index) \<Rightarrow> update_cell p1 index z1 t)))"

text \<open>\<open>plate::addCrustByCollision(x, y, z, time, activeContinent)\<close>.\<close>

definition addCrustByCollision ::
  "plate \<Rightarrow> nat \<Rightarrow> nat \<Rightarrow> real \<Rightarrow> nat \<Rightarrow> nat \<Rightarrow> error + plate" where
  "addCrustByCollision p x y z time activeContinent =
     (case getCrust p x y of
        Inl e \<Rightarrow> Inl e
      | Inr c \<Rightarrow>
     (case setCrust p x y (c + z) time of
        Inl e \<Rightarrow> Inl e
      | Inr p1 \<Rightarrow>
     (case getMapIndex p1 x y of (index, lx, ly) \<Rightarrow>
        if \<not> index < length (segment p1) then Inl OutOfRange
        else if \<not> activeContinent < length (seg_data p1) then Inl OutOfRange
        else
          let data = seg_data p1 ! activeContinent;
              data1 = data\<lparr>area := area data + 1\<rparr>;
              data2 = enlarge_to_contain data1 lx ly
          in Inr (p1\<lparr>segment := (segment p1)[index := activeContinent],
                     seg_data := (seg_data p1)[activeContinent := data2]\<rparr>))))"

subsection \<open>Loops that may fail\<close>

text \<open>A loop over the list \<open>xs\<close> whose body \<open>f\<close> may fail: the first failure ends it.\<close>

fun fold_err :: "('s \<Rightarrow> 'a \<Rightarrow> error + 's) \<Rightarrow> 's \<Rightarrow> 'a list \<Rightarrow> error + 's" where
  "fold_err f s [] = Inr s"
| "fold_err f s (x # xs) = (case f s x of Inl e \<Rightarrow> Inl e | Inr s' \<Rightarrow> fold_err f s' xs)"

subsection \<open>Collision response\<close>

text \<open>\<open>(int)n\<close> for a \<open>size_t\<close> \<open>n\<close>: the low 32 bits, read as a signed number.\<close>

definition int_of_size_t :: "nat \<Rightarrow> int" where
  "int_of_size_t n = (int n + 2 ^ 31) mod 2 ^ 32 - 2 ^ 31"

text \<open>\<open>plate::collide(p, wx, wy, coll_mass)\<close>, called on the plate \<open>a\<close>; the result is the
  pair of the two plates after the call. The quotients by \<open>mass\<close>, \<open>coll_mass\<close>,
  \<open>denom\<close> and \<open>coll_mass + p.mass\<close> are those of the reals: where one of these divisors
  is zero the source computes an infinity or a NaN, which the model does not represent, so
  statements about the impulse assume that they are not zero.\<close>

definition collide :: "plate \<Rightarrow> plate \<Rightarrow> nat \<Rightarrow> nat \<Rightarrow> real \<Rightarrow> error + plate \<times> plate" where
  "collide a p wx wy coll_mass =
     (let coeff_rest = (0::real) in
      (case getMapIndex a wx wy of (index, apx, apy) \<Rightarrow>
      (case getMapIndex p wx wy of (p_index, bpx, bpy) \<Rightarrow>
        if \<not> index < width a * height a then Inl AssertionFailure
        else if \<not> p_index < width p * height p then Inl AssertionFailure
        else
          let ap_dx = real_of_int (int_of_size_t apx - int_of_float (cx a));
              ap_dy = real_of_int (int_of_size_t apy - int_of_float (cy a));
              bp_dx = real_of_int (int_of_size_t bpx - int_of_float (cx p));
              bp_dy = real_of_int (int_of_size_t bpy - int_of_float (cy p));
              nx = ap_dx - bp_dx;
              ny = ap_dy - bp_dy
          in
            if nx * nx + ny * ny \<le> 0 then Inr (a, p)
            else
              let n_len = sqrt (nx * nx + ny * ny);
                  nx1 = nx / n_len;
                  ny1 = ny / n_len;
                  rel_vx = vx a - vx p;
                  rel_vy = vy a - vy p;
                  rel_dot_n = rel_vx * nx1 + rel_vy * ny1
              in
                if rel_dot_n \<le> 0 then Inr (a, p)
                else
                  let denom = (nx1 * nx1 + ny1 * ny1) * (1 / mass a + 1 / coll_mass);
                      J = - (1 + coeff_rest) * rel_dot_n / denom
                  in Inr (a\<lparr>dx := dx a + nx1 * J / mass a,
                             dy := dy a + ny1 * J / mass a\<rparr>,
                          p\<lparr>dx := dx p - nx1 * J / (coll_mass + mass p),
                            dy := dy p - ny1 * J / (coll_mass + mass p)\<rparr>))))"

text \<open>
  The contact normal of \<open>collide\<close> before it is scaled to unit length (the locals
  \<open>nx\<close>, \<open>ny\<close> up to the first test), and after.
\<close>

definition contact_normal :: "plate \<Rightarrow> plate \<Rightarrow> nat \<Rightarrow> nat \<Rightarrow> real \<times> real" where
  "contact_normal a p wx wy =
     (case getMapIndex a wx wy of (index, apx, apy) \<Rightarrow>
      (case getMapIndex p wx wy of (p_index, bpx, bpy) \<Rightarrow>
        (real_of_int (int_of_size_t apx - int_of_float (cx a)) -
           real_of_int (int_of_size_t bpx - int_of_float (cx p)),
         real_of_int (int_of_size_t apy - int_of_float (cy a)) -
           real_of_int (int_of_size_t bpy - int_of_float (cy p)))))"

definition unit_normal :: "plate \<Rightarrow> plate \<Rightarrow> nat \<Rightarrow> nat \<Rightarrow> real \<times> real" where
  "unit_normal a p wx wy =
     (case contact_normal a p wx wy of (nx, ny) \<Rightarrow>
        (nx / sqrt (nx * nx + ny * ny), ny / sqrt (nx * nx + ny * ny)))"

subsection \<open>Subduction\<close>

text \<open>
  Lines 145 to 147 of \<open>addCrustBySubduction\<close>: \<open>dot = vx * dx + vy * dy;
  dx -= vx * (dot > 0); dy -= vy * (dot > 0)\<close>.
\<close>

definition subduction_hint :: "plate \<Rightarrow> real \<Rightarrow> real \<Rightarrow> real \<times> real" where
  "subduction_hint p ddx ddy =
     (let dot = vx p * ddx + vy p * ddy
      in (ddx - vx p * bool_real (dot > 0), ddy - vy p * bool_real (dot > 0)))"

text \<open>
  Lines 149 and 150: the noise \<open>offset\<close> from two draws \<open>r0\<close>, \<open>r1\<close> of the generator,
  \<open>offset = (float)r0 / (float)max; offset *= offset * offset * (2 * (r1 & 1) - 1)\<close>.
  The factor \<open>2 * (r1 & 1) - 1\<close> is computed in the unsigned result type of the
  generator (\<open>uint_fast32_t\<close>, which has the 64 bits of \<open>size_t\<close> here): it is 1 for an
  odd draw and wraps around to \<open>2 ^ 64 - 1\<close> for an even one.
\<close>

definition subduction_offset :: "nat \<Rightarrow> nat \<Rightarrow> real" where
  "subduction_offset r0 r1 =
     (let offset0 = real r0 / real rand_max
      in offset0 * (offset0 * offset0 * real (sub_size_t (2 * (r1 mod 2)) 1)))"

text \<open>
  \<open>plate::addCrustBySubduction(x, y, z, t, dx, dy)\<close>. The conversions \<open>(size_t)f\<close> of
  the floats \<open>(int)x + dx\<close>, \<open>(int)y + dy\<close> and of the averaged age are
  \<open>size_t_of_float\<close>, the truncated value modulo \<open>2 ^ 64\<close>; the index
  \<open>y * width + x\<close> is computed in \<open>size_t\<close> and wraps around.
\<close>

definition addCrustBySubduction ::
  "plate \<Rightarrow> nat \<Rightarrow> nat \<Rightarrow> real \<Rightarrow> nat \<Rightarrow> real \<Rightarrow> real \<Rightarrow> error + plate" where
  "addCrustBySubduction p x y z t ddx ddy =
     (case getMapIndex p x y of (index0, x1, y1) \<Rightarrow>
      (case subduction_hint p ddx ddy of (dx1, dy1) \<Rightarrow>
      (case rand_next p of (r0, p1) \<Rightarrow>
      (case rand_next p1 of (r1, p2) \<Rightarrow>
        let offset = subduction_offset r0 r1;
            dx2 = 10 * dx1 + 3 * offset;
            dy2 = 10 * dy1 + 3 * offset;
            x2 = size_t_of_float (real_of_int (int_of_size_t x1) + dx2);
            y2 = size_t_of_float (real_of_int (int_of_size_t y1) + dy2);
            x3 = (if width p2 = wd_width (worldDimension p2) then x2 mod width p2 else x2);
            y3 = (if height p2 = wd_height (worldDimension p2) then y2 mod height p2 else y2);
            index = (y3 * width p2 + x3) mod 2 ^ 64
        in
          if index < width p2 * height p2 then
            (if \<not> (index < length (map_p p2) \<and> index < length (age_map p2)) then Inl OutOfRange
             else if map_p p2 ! index > 0 then
               let t1 = size_t_of_float
                          ((map_p p2 ! index * real (age_map p2 ! index) + z * real t) /
                           (map_p p2 ! index + z))
               in Inr (p2\<lparr>age_map := (age_map p2)[index := mask_if (z > 0) t1],
                          map_p := (map_p p2)[index := map_p p2 ! index + z],
                          mass := mass p2 + z\<rparr>)
             else Inr p2)
          else Inr p2))))"

subsection \<open>Aggregation of a continent\<close>

text \<open>\<open>plate::selectCollisionSegment(coll_x, coll_y)\<close>.\<close>

definition selectCollisionSegment :: "plate \<Rightarrow> nat \<Rightarrow> nat \<Rightarrow> error + nat" where
  "selectCollisionSegment p coll_x coll_y =
     (case getMapIndex p coll_x coll_y of (index, _, _) \<Rightarrow>
        if index < length (segment p) then Inr (segment p ! index) else Inl OutOfRange)"

text \<open>
  The body of the two nested loops of \<open>aggregateCrust\<close> at the local cell \<open>(x,y)\<close> of the
  plate \<open>a\<close>; \<open>wx\<close>, \<open>wy\<close> are the world coordinates already advanced by the world's
  sides, \<open>lx\<close>, \<open>ly\<close> the local coordinates of the collision point.
\<close>

definition aggregate_step ::
  "nat \<Rightarrow> nat \<Rightarrow> nat \<Rightarrow> nat \<Rightarrow> nat \<Rightarrow> nat \<Rightarrow> plate \<times> plate \<Rightarrow> nat \<times> nat \<Rightarrow>
     error + plate \<times> plate" where
  "aggregate_step seg_id activeContinent wx wy lx ly ap c =
     (case ap of (a, p) \<Rightarrow>
      (case c of (x, y) \<Rightarrow>
        let i = y * width a + x in
        if \<not> (i < length (segment a) \<and> i < length (map_p a) \<and> i < length (age_map a))
        then Inl OutOfRange
        else if segment a ! i = seg_id \<and> map_p a ! i > 0 then
          (case addCrustByCollision p (sub_size_t (wx + x) lx) (sub_size_t (wy + y) ly)
                  (map_p a ! i) (age_map a ! i) activeContinent of
             Inl e \<Rightarrow> Inl e
           | Inr p1 \<Rightarrow>
               Inr (a\<lparr>mass := mass a - map_p a ! i, map_p := (map_p a)[i := 0]\<rparr>, p1))
        else Inr (a, p)))"

text \<open>
  \<open>plate::aggregateCrust(p, wx, wy)\<close>, called on the plate \<open>a\<close>, for two distinct plates:
  the returned mass and the two plates after the call.
\<close>

definition aggregateCrust ::
  "plate \<Rightarrow> plate \<Rightarrow> nat \<Rightarrow> nat \<Rightarrow> error + real \<times> plate \<times> plate" where
  "aggregateCrust a p wx wy =
     (case getMapIndex a wx wy of (index, lx, ly) \<Rightarrow>
        if \<not> index < length (segment a) then Inl OutOfRange
        else
          let seg_id = segment a ! index in
          if \<not> seg_id < length (seg_data a) then Inl OutOfRange
          else if isEmpty (seg_data a ! seg_id) then Inr (0, a, p)
          else
            (case selectCollisionSegment p wx wy of
               Inl e \<Rightarrow> Inl e
             | Inr activeContinent \<Rightarrow>
                 let wx1 = wx + wd_width (worldDimension a);
                     wy1 = wy + wd_height (worldDimension a);
                     old_mass = mass a;
                     sd = seg_data a ! seg_id;
                     cs = concat (map (\<lambda>y. map (\<lambda>x. (x, y)) [getLeft sd..<Suc (getRight sd)])
                                      [getTop sd..<Suc (getBottom sd)])
                 in (case fold_err (aggregate_step seg_id activeContinent wx1 wy1 lx ly)
                            (a, p) cs of
                       Inl e \<Rightarrow> Inl e
                     | Inr (a1, p1) \<Rightarrow>
                         Inr (old_mass - mass a1,
                              a1\<lparr>seg_data := (seg_data a1)
                                    [seg_id := (seg_data a1 ! seg_id)\<lparr>area := 0\<rparr>]\<rparr>,
                              p1))))"



subsection \<open>Plates used as concrete inputs\<close>

definition world4 :: world_dimension where
  "world4 = \<lparr>wd_width = 4, wd_height = 4\<rparr>"

text \<open>A 2 by 2 plate at the origin of a 4 by 4 world, moving along \<open>(1,0)\<close> at speed 1,
  with the rotation switched off.\<close>

definition plate_E2 :: plate where
  "plate_E2 =
     \<lparr>randsource = (\<lambda>i. 0), rand_pos = 2, width = 2, height = 2,
      mass = 4, left = 0, top_p = 0, cx = 1/2, cy = 1/2, dx = 0, dy = 0,
      vx = 1, vy = 0, velocity = 1, rot_dir = 0,
      map_p = [1, 1, 1, 1], age_map = [7, 7, 7, 7],
      segment = [SIZE_MAX, SIZE_MAX, SIZE_MAX, SIZE_MAX], seg_data = [],
      worldDimension = world4\<rparr>"


text \<open>The plate \<open>plate_E2\<close> with the pending impulse \<open>(2,4)\<close>, so that direction plus
  impulse is \<open>(3,4)\<close>, of length 5, and the same plate after \<open>move()\<close>.\<close>

definition plate_E2_pushed :: plate where
  "plate_E2_pushed = plate_E2\<lparr>dx := 2, dy := 4\<rparr>"

definition plate_E2_moved :: plate where
  "plate_E2_moved = plate_E2\<lparr>vx := 3 / 5, vy := 4 / 5, velocity := 5, left := 3\<rparr>"

definition world8 :: world_dimension where
  "world8 = \<lparr>wd_width = 8, wd_height = 8\<rparr>"

text \<open>
  The scenario E3 in an 8 by 8 world: two 3 by 1 plates that overlap in the world cell
  \<open>(2,0)\<close>. Plate A has mass 10 and its centre of mass at its local cell 0, plate B has
  mass 100 and its centre of mass at its local cell 2, so that the contact normal at
  \<open>(2,0)\<close> is \<open>(4,0)\<close>, of unit \<open>(1,0)\<close>. Both have scalar velocity 0; the directions
  are \<open>(1,0)\<close> and \<open>(0,-1)\<close>, which differ by \<open>(1,1)\<close>.
\<close>

definition plate_E3_A :: plate where
  "plate_E3_A =
     \<lparr>randsource = (\<lambda>i. 0), rand_pos = 2, width = 3, height = 1,
      mass = 10, left = 0, top_p = 0, cx = 0, cy = 0, dx = 0, dy = 0,
      vx = 1, vy = 0, velocity = 0, rot_dir = 1,
      map_p = [10, 0, 0], age_map = [1, 0, 0],
      segment = [SIZE_MAX, SIZE_MAX, SIZE_MAX], seg_data = [],
      worldDimension = world8\<rparr>"

definition plate_E3_B :: plate where
  "plate_E3_B =
     \<lparr>randsource = (\<lambda>i. 0), rand_pos = 2, width = 3, height = 1,
      mass = 100, left = 2, top_p = 0, cx = 2, cy = 0, dx = 0, dy = 0,
      vx = 0, vy = -1, velocity = 0, rot_dir = 1,
      map_p = [0, 0, 100], age_map = [0, 0, 1],
      segment = [SIZE_MAX, SIZE_MAX, SIZE_MAX], seg_data = [],
      worldDimension = world8\<rparr>"

text \<open>The plate \<open>plate_E2\<close> after its raster has grown by two columns to the right, and
  after \<open>setCrust(3, 0, 1, 0)\<close>.\<close>

definition plate_E2_grown :: plate where
  "plate_E2_grown = plate_E2\<lparr>width := 4, map_p := [1, 1, 0, 0, 1, 1, 0, 0],
      age_map := [7, 7, 0, 0, 7, 7, 0, 0],
      segment := [SIZE_MAX, SIZE_MAX, SIZE_MAX, SIZE_MAX, SIZE_MAX, SIZE_MAX, SIZE_MAX, SIZE_MAX]\<rparr>"

definition plate_E2_set :: plate where
  "plate_E2_set = plate_E2_grown\<lparr>age_map := [7, 7, 0, 0, 7, 7, 0, 0], mass := 5,
            map_p := [1, 1, 0, 1, 1, 1, 0, 0]\<rparr>"

text \<open>
  The same 2 by 2 plate in a 16 by 16 world, where there is room for a growth by 8
  columns, after its raster has grown and after \<open>setCrust(3, 0, 1, 0)\<close>.
\<close>

definition world16 :: world_dimension where
  "world16 = \<lparr>wd_width = 16, wd_height = 16\<rparr>"

definition plate_E2_wide :: plate where
  "plate_E2_wide = plate_E2\<lparr>worldDimension := world16\<rparr>"

definition plate_E2_wide_grown :: plate where
  "plate_E2_wide_grown = plate_E2_wide\<lparr>width := 10,
      map_p := [1, 1, 0, 0, 0, 0, 0, 0, 0, 0, 1, 1, 0, 0, 0, 0, 0, 0, 0, 0],
      age_map := [7, 7, 0, 0, 0, 0, 0, 0, 0, 0, 7, 7, 0, 0, 0, 0, 0, 0, 0, 0],
      segment := replicate 20 SIZE_MAX\<rparr>"

definition plate_E2_wide_set :: plate where
  "plate_E2_wide_set = plate_E2_wide_grown\<lparr>mass := 5,
      map_p := [1, 1, 0, 1, 0, 0, 0, 0, 0, 0, 1, 1, 0, 0, 0, 0, 0, 0, 0, 0]\<rparr>"

text \<open>
  The plate \<open>plate_E2\<close> after \<open>addCrustBySubduction(0, 0, 1, 3, 1.1, 0)\<close>: the hint
  \<open>(1.1, 0)\<close> less the direction \<open>(1,0)\<close> is \<open>(0.1, 0)\<close>, so the crust is
  deposited one cell to the right of the cell \<open>(0,0)\<close>.
\<close>

definition plate_E2_subducted :: plate where
  "plate_E2_subducted = plate_E2\<lparr>rand_pos := 4, age_map := [7, 5, 7, 7], mass := 5,
       map_p := [1, 2, 1, 1]\<rparr>"

text \<open>
  The plate \<open>plate_E2\<close> with its cell 0 assigned to a continent of area 1, and the same
  plate after one and after two calls \<open>addCrustByCollision(0, 0, 1, 5, 0)\<close>.
\<close>

definition seg0 :: segmentData where
  "seg0 = \<lparr>seg_rect = Rectangle world4 0 0 0 0, area = 1, coll_count = 0\<rparr>"

definition plate_seg :: plate where
  "plate_seg = plate_E2\<lparr>segment := [0, SIZE_MAX, SIZE_MAX, SIZE_MAX], seg_data := [seg0]\<rparr>"

definition plate_seg1 :: plate where
  "plate_seg1 = plate_seg\<lparr>age_map := [5, 7, 7, 7], mass := 5, map_p := [2, 1, 1, 1],
       seg_data := [seg0\<lparr>area := 2\<rparr>]\<rparr>"

definition plate_seg2 :: plate where
  "plate_seg2 = plate_seg\<lparr>age_map := [5, 7, 7, 7], mass := 6, map_p := [3, 1, 1, 1],
       seg_data := [seg0\<lparr>area := 3\<rparr>]\<rparr>"

subsection \<open>Erosion\<close>

text \<open>
  The first part of \<open>plate::calculateCrust\<close>: the masks of the accessible directions
  (wrapping around the map edges if the plate has the world's dimension) and the offsets
  \<open>w, e, n, s\<close> of the four neighbours of the cell \<open>(x,y)\<close> within the raster, 0 standing
  for a neighbour out of the plate's edges.
\<close>

definition neighbour_indices ::
  "plate \<Rightarrow> nat \<Rightarrow> nat \<Rightarrow> (bool \<times> bool \<times> bool \<times> bool) \<times> (nat \<times> nat \<times> nat \<times> nat)" where
  "neighbour_indices p x y =
     (let W = wd_width (worldDimension p); H = wd_height (worldDimension p);
          w_mask = (x > 0 \<or> width p = W);
          e_mask = (x < sub_size_t (width p) 1 \<or> width p = W);
          n_mask = (y > 0 \<or> height p = H);
          s_mask = (y < sub_size_t (height p) 1 \<or> height p = H);
          w0 = (if w_mask then xMod p (sub_size_t x 1) else 0);
          e0 = (if e_mask then xMod p (x + 1) else 0);
          n0 = (if n_mask then yMod p (sub_size_t y 1) else 0);
          s0 = (if s_mask then yMod p (y + 1) else 0)
      in ((w_mask, e_mask, n_mask, s_mask),
          (y * width p + w0, y * width p + e0, n0 * width p + x, s0 * width p + x)))"

text \<open>
  \<open>plate::calculateCrust(x, y, index, ...)\<close>: the crust of the four neighbours of the cell
  \<open>(x,y)\<close>, each 0 unless the neighbour is accessible and strictly lower than the cell, and
  the indices \<open>w, e, n, s\<close> of the neighbours.
\<close>

definition calculateCrust ::
  "plate \<Rightarrow> nat \<Rightarrow> nat \<Rightarrow> nat \<Rightarrow>
     error + (real \<times> real \<times> real \<times> real) \<times> (nat \<times> nat \<times> nat \<times> nat)" where
  "calculateCrust p x y index =
     (case neighbour_indices p x y of (masks, nb) \<Rightarrow>
      (case masks of (w_mask, e_mask, n_mask, s_mask) \<Rightarrow>
      (case nb of (w, e, n, s) \<Rightarrow>
        let m = map_p p in
        if \<not> (w < length m \<and> e < length m \<and> n < length m \<and> s < length m \<and>
               index < length m)
        then Inl OutOfRange
        else Inr ((m ! w * bool_real (w_mask \<and> m ! w < m ! index),
                   m ! e * bool_real (e_mask \<and> m ! e < m ! index),
                   m ! n * bool_real (n_mask \<and> m ! n < m ! index),
                   m ! s * bool_real (s_mask \<and> m ! s < m ! index)),
                  (w, e, n, s)))))"

text \<open>
  The body of the loop \<open>// Find all tops\<close> of \<open>erode\<close> at the cell \<open>(x,y)\<close>. The vector
  \<open>sources\<close> is a list whose head is the back of the vector.
\<close>

definition tops_step :: "plate \<Rightarrow> real \<Rightarrow> nat list \<Rightarrow> nat \<times> nat \<Rightarrow> error + nat list" where
  "tops_step p lower_bound sources c =
     (case c of (x, y) \<Rightarrow>
        let index = y * width p + x in
        if \<not> index < length (map_p p) then Inl OutOfRange
        else if map_p p ! index < lower_bound then Inr sources
        else
          (case calculateCrust p x y index of
             Inl e \<Rightarrow> Inl e
           | Inr ((w_crust, e_crust, n_crust, s_crust), _) \<Rightarrow>
               if w_crust * e_crust * n_crust * s_crust = 0 then Inr sources
               else Inr (index # sources)))"

text \<open>
  \<open>// Find lowest neighbour\<close>: the index \<open>dest\<close> that the river from the cell \<open>index\<close>
  flows to, computed as \<open>index - 1\<close>, \<open>index + 1\<close>, \<open>index - width\<close> or \<open>index + width\<close>.
\<close>

definition flow_dest :: "plate \<Rightarrow> nat \<Rightarrow> real \<Rightarrow> real \<Rightarrow> real \<Rightarrow> real \<Rightarrow> nat" where
  "flow_dest p index w_crust e_crust n_crust s_crust =
     (let w1 = w_crust + bool_real (w_crust = 0) * map_p p ! index;
          e1 = e_crust + bool_real (e_crust = 0) * map_p p ! index;
          n1 = n_crust + bool_real (n_crust = 0) * map_p p ! index;
          s1 = s_crust + bool_real (s_crust = 0) * map_p p ! index;
          lowest_crust0 = w1;
          dest0 = sub_size_t index 1;
          lowest_crust1 = (if e1 < lowest_crust0 then e1 else lowest_crust0);
          dest1 = (if e1 < lowest_crust0 then index + 1 else dest0);
          lowest_crust2 = (if n1 < lowest_crust1 then n1 else lowest_crust1);
          dest2 = (if n1 < lowest_crust1 then sub_size_t index (width p) else dest1);
          dest3 = (if s1 < lowest_crust2 then index + width p else dest2)
      in dest3)"

text \<open>
  The two nested loops \<open>while (!sources->empty())\<close> of \<open>erode\<close>. \<open>sources\<close> and
  \<open>sinks\<close> are lists whose head is the back of the vector, \<open>isDone\<close> is the set of the
  indices whose flag is set, \<open>tmp\<close> the scratch raster. The heights read are those of
  the plate's raster, which the loop leaves as it is.
\<close>

function erode_flow ::
  "plate \<Rightarrow> real \<Rightarrow> nat list \<Rightarrow> nat list \<Rightarrow> nat set \<Rightarrow> real list \<Rightarrow> error + real list" where
  "erode_flow p lower_bound [] sinks isDone tmp =
     (if sinks = [] then Inr tmp else erode_flow p lower_bound sinks [] isDone tmp)"
| "erode_flow p lower_bound (index # sources) sinks isDone tmp =
     (if \<not> index < length (map_p p) then Inl OutOfRange
      else if map_p p ! index < lower_bound
      then erode_flow p lower_bound sources sinks isDone tmp
      else
        (case calculateCrust p (index - (index div width p) * width p) (index div width p) index of
           Inl e \<Rightarrow> Inl e
         | Inr (crust, nb) \<Rightarrow>
             (case crust of (w_crust, e_crust, n_crust, s_crust) \<Rightarrow>
                if w_crust + e_crust + n_crust + s_crust = 0
                then erode_flow p lower_bound sources sinks isDone tmp
                else if \<not> index < length tmp then Inl OutOfRange
                else if flow_dest p index w_crust e_crust n_crust s_crust < width p * height p \<and>
                        flow_dest p index w_crust e_crust n_crust s_crust \<notin> isDone
                then erode_flow p lower_bound sources
                       (flow_dest p index w_crust e_crust n_crust s_crust # sinks)
                       (insert (flow_dest p index w_crust e_crust n_crust s_crust) isDone)
                       (tmp[index := tmp ! index - (tmp ! index - lower_bound) * 0.2])
                else erode_flow p lower_bound sources sinks isDone
                       (tmp[index := tmp ! index - (tmp ! index - lower_bound) * 0.2]))))"
  by pat_completeness auto
termination
proof (relation
    "(\<lambda>(p, lb, sources, sinks, isDone, tmp). card ({0..<width p * height p} - isDone)) <*mlex*>
     (\<lambda>(p, lb, sources, sinks, isDone, tmp). length sinks) <*mlex*>
     measure (\<lambda>(p, lb, sources, sinks, isDone, tmp). length sources)", goal_cases)
  case 1
  show ?case by (simp add: wf_mlex)
next
  case (2 p lower_bound sinks isDone tmp)
  then show ?case by (simp add: mlex_iff)
next
  case (3 p lower_bound index sources sinks isDone tmp)
  show ?case by (simp add: mlex_iff)
next
  case (4 p lower_bound index sources sinks isDone tmp x2 x y xa ya xb yb xc yc)
  show ?case by (simp add: mlex_iff)
next
  case (5 p lower_bound index sources sinks isDone tmp x2 x y xa ya xb yb xc yc)
  then have "flow_dest p index xa xb xc yc \<in> {0..<width p * height p} - isDone"
    by simp
  then have "card ({0..<width p * height p} - insert (flow_dest p index xa xb xc yc) isDone) <
             card ({0..<width p * height p} - isDone)"
    by (metis Diff_insert card_Diff1_less finite_Diff finite_atLeastLessThan)
  then show ?case by (simp add: mlex_iff)
next
  case (6 p lower_bound index sources sinks isDone tmp x2 x y xa ya xb yb xc yc)
  show ?case by (simp add: mlex_iff)
qed

text \<open>The body of the loop \<open>// Add random noise (10 %) to heightmap\<close> at index \<open>i\<close>.\<close>

definition noise_step :: "real list \<times> plate \<Rightarrow> nat \<Rightarrow> error + real list \<times> plate" where
  "noise_step s i =
     (case s of (tmp, p) \<Rightarrow>
      (case rand_next p of (r, p1) \<Rightarrow>
        let alpha = 0.2 * real r / real rand_max in
        if \<not> i < length tmp then Inl OutOfRange
        else Inr (tmp[i := tmp ! i + (0.1 * tmp ! i - alpha * tmp ! i)], p1)))"

text \<open>\<open>tmp[i] += v\<close>.\<close>

definition add_at :: "real list \<Rightarrow> nat \<Rightarrow> real \<Rightarrow> real list" where
  "add_at tmp i v = tmp[i := tmp ! i + v]"

text \<open>
  The branch \<open>if (diff_sum < min_diff)\<close> of the last loop of \<open>erode\<close>: there is not
  enough room in the lower neighbours, so they and the cell are first made equally tall
  and the remaining crust is then spread equally among them and the cell.
\<close>

definition level_neighbours ::
  "real list \<Rightarrow> nat \<Rightarrow> nat \<times> nat \<times> nat \<times> nat \<Rightarrow> real \<times> real \<times> real \<times> real \<Rightarrow>
     real \<times> real \<times> real \<times> real \<Rightarrow> real \<Rightarrow> real \<Rightarrow> real list" where
  "level_neighbours tmp index nb diff crust min_diff diff_sum =
     (case nb of (w, e, n, s) \<Rightarrow>
      (case diff of (w_diff, e_diff, n_diff, s_diff) \<Rightarrow>
      (case crust of (w_crust, e_crust, n_crust, s_crust) \<Rightarrow>
        let tmp2 = add_at tmp w ((w_diff - min_diff) * bool_real (w_crust > 0));
            tmp3 = add_at tmp2 e ((e_diff - min_diff) * bool_real (e_crust > 0));
            tmp4 = add_at tmp3 n ((n_diff - min_diff) * bool_real (n_crust > 0));
            tmp5 = add_at tmp4 s ((s_diff - min_diff) * bool_real (s_crust > 0));
            tmp6 = add_at tmp5 index (- min_diff);
            rest = (min_diff - diff_sum) /
                   (1 + bool_real (w_crust > 0) + bool_real (e_crust > 0) +
                    bool_real (n_crust > 0) + bool_real (s_crust > 0));
            tmp7 = add_at tmp6 w (rest * bool_real (w_crust > 0));
            tmp8 = add_at tmp7 e (rest * bool_real (e_crust > 0));
            tmp9 = add_at tmp8 n (rest * bool_real (n_crust > 0));
            tmp10 = add_at tmp9 s (rest * bool_real (s_crust > 0))
        in add_at tmp10 index rest)))"

text \<open>
  The \<open>else\<close> branch: the cell is lowered by \<open>min_diff\<close>, to the height of its tallest
  lower neighbour, and the crust removed is spread among the other lower neighbours.
\<close>

definition flatten_to_neighbours ::
  "real list \<Rightarrow> nat \<Rightarrow> nat \<times> nat \<times> nat \<times> nat \<Rightarrow> real \<times> real \<times> real \<times> real \<Rightarrow>
     real \<times> real \<times> real \<times> real \<Rightarrow> real \<Rightarrow> real \<Rightarrow> real list" where
  "flatten_to_neighbours tmp index nb diff crust min_diff diff_sum =
     (case nb of (w, e, n, s) \<Rightarrow>
      (case diff of (w_diff, e_diff, n_diff, s_diff) \<Rightarrow>
      (case crust of (w_crust, e_crust, n_crust, s_crust) \<Rightarrow>
        let unit = min_diff / diff_sum;
            tmp2 = add_at tmp index (- min_diff);
            tmp3 = add_at tmp2 w (unit * (w_diff - min_diff) * bool_real (w_crust > 0));
            tmp4 = add_at tmp3 e (unit * (e_diff - min_diff) * bool_real (e_crust > 0));
            tmp5 = add_at tmp4 n (unit * (n_diff - min_diff) * bool_real (n_crust > 0))
        in add_at tmp5 s (unit * (s_diff - min_diff) * bool_real (s_crust > 0)))))"

text \<open>
  \<open>min_diff\<close>, the least of the four height differences, as the source computes it, and
  \<open>diff_sum\<close>, the sum over the lower neighbours of their difference less \<open>min_diff\<close>.
\<close>

definition min_diff_of :: "real \<times> real \<times> real \<times> real \<Rightarrow> real" where
  "min_diff_of diff =
     (case diff of (w_diff, e_diff, n_diff, s_diff) \<Rightarrow>
        let min_diff0 = w_diff;
            min_diff1 = min_diff0 - (min_diff0 - e_diff) * bool_real (e_diff < min_diff0);
            min_diff2 = min_diff1 - (min_diff1 - n_diff) * bool_real (n_diff < min_diff1)
        in min_diff2 - (min_diff2 - s_diff) * bool_real (s_diff < min_diff2))"

definition diff_sum_of ::
  "real \<times> real \<times> real \<times> real \<Rightarrow> real \<times> real \<times> real \<times> real \<Rightarrow> real \<Rightarrow> real" where
  "diff_sum_of diff crust min_diff =
     (case diff of (w_diff, e_diff, n_diff, s_diff) \<Rightarrow>
      (case crust of (w_crust, e_crust, n_crust, s_crust) \<Rightarrow>
        (w_diff - min_diff) * bool_real (w_crust > 0) +
        (e_diff - min_diff) * bool_real (e_crust > 0) +
        (n_diff - min_diff) * bool_real (n_crust > 0) +
        (s_diff - min_diff) * bool_real (s_crust > 0)))"

text \<open>
  The body of the last loop of \<open>erode\<close> at the cell \<open>(x,y)\<close>: the mass and the centre
  coordinates of the plate accumulate the height of the cell, and the scratch raster
  \<open>tmp\<close> receives the height and the crust that the cell passes to its lower
  neighbours.
\<close>

definition redistribute_step ::
  "real \<Rightarrow> plate \<times> real list \<Rightarrow> nat \<times> nat \<Rightarrow> error + plate \<times> real list" where
  "redistribute_step lower_bound s c =
     (case s of (p, tmp) \<Rightarrow>
      (case c of (x, y) \<Rightarrow>
        let index = y * width p + x in
        if \<not> (index < length (map_p p) \<and> index < length tmp) then Inl OutOfRange
        else
          let h = map_p p ! index;
              p1 = p\<lparr>mass := mass p + h, cx := cx p + real x * h, cy := cy p + real y * h\<rparr>;
              tmp1 = add_at tmp index h
          in
            if h < lower_bound then Inr (p1, tmp1)
            else
              (case calculateCrust p1 x y index of
                 Inl e \<Rightarrow> Inl e
               | Inr (crust, nb) \<Rightarrow>
              (case crust of (w_crust, e_crust, n_crust, s_crust) \<Rightarrow>
              (case nb of (w, e, n, s) \<Rightarrow>
                 if w_crust + e_crust + n_crust + s_crust = 0 then Inr (p1, tmp1)
                 else if \<not> (w < length tmp \<and> e < length tmp \<and> n < length tmp \<and> s < length tmp)
                 then Inl OutOfRange
                 else
                   let diff = (h - w_crust, h - e_crust, h - n_crust, h - s_crust);
                       min_diff = min_diff_of diff;
                       diff_sum = diff_sum_of diff crust min_diff
                   in
                     if \<not> diff_sum \<ge> 0 then Inl AssertionFailure
                     else if diff_sum < min_diff
                     then Inr (p1, level_neighbours tmp1 index nb diff crust min_diff diff_sum)
                     else Inr (p1, flatten_to_neighbours tmp1 index nb diff crust min_diff
                                     diff_sum))))))"

text \<open>
  \<open>plate::erode(lower_bound)\<close>. \<open>tmp\<close> is the scratch array of \<open>width * height\<close> floats;
  the copies between it and the raster are \<open>memcpy\<close>s of that many entries.
\<close>

definition erode :: "plate \<Rightarrow> real \<Rightarrow> error + plate" where
  "erode p lower_bound =
     (let area = width p * height p in
      (case memcpy (replicate area 0) 0 (map_p p) 0 area of
         Inl e \<Rightarrow> Inl e
       | Inr tmp0 \<Rightarrow>
      (case fold_err (tops_step p lower_bound) [] (cells (width p) (height p)) of
         Inl e \<Rightarrow> Inl e
       | Inr sources \<Rightarrow>
      (case erode_flow p lower_bound sources [] {} tmp0 of
         Inl e \<Rightarrow> Inl e
       | Inr tmp1 \<Rightarrow>
      (case fold_err noise_step (tmp1, p) [0..<area] of
         Inl e \<Rightarrow> Inl e
       | Inr (tmp2, p1) \<Rightarrow>
      (case memcpy (map_p p1) 0 tmp2 0 area of
         Inl e \<Rightarrow> Inl e
       | Inr noised \<Rightarrow>
      (case memcpy tmp2 0 (replicate area 0) 0 area of
         Inl e \<Rightarrow> Inl e
       | Inr tmp3 \<Rightarrow>
      (case fold_err (redistribute_step lower_bound)
              (p1\<lparr>map_p := noised, mass := 0, cx := 0, cy := 0\<rparr>, tmp3)
              (cells (width p) (height p)) of
         Inl e \<Rightarrow> Inl e
       | Inr (p2, tmp4) \<Rightarrow>
      (case memcpy (map_p p2) 0 tmp4 0 area of
         Inl e \<Rightarrow> Inl e
       | Inr flattened \<Rightarrow>
           Inr (if mass p2 > 0
                then p2\<lparr>map_p := flattened, cx := cx p2 / mass p2, cy := cy p2 / mass p2\<rparr>
                else p2\<lparr>map_p := flattened\<rparr>))))))))))"

subsection \<open>Sequences of calls on one plate\<close>




text \<open>The heights of a raster are not negative.\<close>

definition nonneg :: "real list \<Rightarrow> bool" where
  "nonneg xs = (\<forall>x\<in>set xs. 0 \<le> x)"

text \<open>A raster that is 0 everywhere but at the index \<open>c\<close>, where it is not negative.\<close>

definition single_peak :: "real list \<Rightarrow> nat \<Rightarrow> bool" where
  "single_peak m c = (\<forall>k < length m. if k = c then 0 \<le> m ! k else m ! k = 0)"

text \<open>
  The raster that the loop \<open>// Add random noise (10 %) to heightmap\<close> of \<open>erode\<close> makes
  of the plate's own raster: the entry \<open>i\<close> receives
  \<open>0.1 * tmp[i] - alpha * tmp[i]\<close>, where \<open>alpha = 0.2 * r / max()\<close> for the draw \<open>r\<close>
  number \<open>i\<close> of the generator from its present position on.
\<close>

definition noised :: "plate \<Rightarrow> real list" where
  "noised p =
     map (\<lambda>i. map_p p ! i + (0.1 * map_p p ! i -
            0.2 * real (randsource p (rand_pos p + i)) / real rand_max * map_p p ! i))
       [0..<width p * height p]"

subsection \<open>Plates used as concrete inputs of the erosion\<close>

text \<open>
  The scenario E5: a 3 by 3 plate at the origin of the 8 by 8 world with the heights
  \<open>[0,0,0; 0,10,0; 0,0,0]\<close>, whose generator draws 0 every time; the same plate after
  \<open>erode\<close>; after \<open>move()\<close>, \<open>erode(0)\<close> and \<open>resetSegments()\<close>; and the plate whose
  generator draws \<open>max()\<close> every time.
\<close>

definition plate_E5 :: plate where
  "plate_E5 =
     \<lparr>randsource = (\<lambda>i. 0), rand_pos = 2, width = 3, height = 3,
      mass = 10, left = 0, top_p = 0, cx = 1, cy = 1, dx = 0, dy = 0,
      vx = 1, vy = 0, velocity = 1, rot_dir = 0,
      map_p = [0, 0, 0, 0, 10, 0, 0, 0, 0], age_map = [0, 0, 0, 0, 1, 0, 0, 0, 0],
      segment = replicate 9 SIZE_MAX, seg_data = [],
      worldDimension = world8\<rparr>"

definition plate_E5_eroded :: plate where
  "plate_E5_eroded = plate_E5\<lparr>rand_pos := 11, map_p := [0, 0, 0, 0, 11, 0, 0, 0, 0], mass := 11\<rparr>"


definition plate_E5_dry :: plate where
  "plate_E5_dry = plate_E5\<lparr>randsource := (\<lambda>i. rand_max)\<rparr>"




section \<open>Theorems\<close>

subsection \<open>Kinematics\<close>

lemma if_Inl_Inr: "(if c then Inl e else x) = Inr v \<Longrightarrow> \<not> c \<and> x = Inr v"
  by (simp split: if_splits)


lemma unit_normal_norm:
  assumes "nx * nx + ny * ny > (0::real)"
  shows "(nx / sqrt (nx * nx + ny * ny)) * (nx / sqrt (nx * nx + ny * ny)) +
         (ny / sqrt (nx * nx + ny * ny)) * (ny / sqrt (nx * nx + ny * ny)) = 1"
proof -
  have "sqrt (nx * nx + ny * ny) * sqrt (nx * nx + ny * ny) = nx * nx + ny * ny"
    using assms by simp
  then show ?thesis using assms
    by (metis add_divide_distrib divide_self_if less_numeral_extra(3) times_divide_times_eq)
qed

lemma rotation_norm:
  fixes a b c s :: real
  assumes "a * a + b * b = 1" and "c * c + s * s = 1"
  shows "(a * c - b * s) * (a * c - b * s) + (b * c + a * s) * (b * c + a * s) = 1"
proof -
  have "(a * c - b * s) * (a * c - b * s) + (b * c + a * s) * (b * c + a * s) =
        (a * a + b * b) * (c * c + s * s)"
    by (simp add: algebra_simps)
  with assms show ?thesis by simp
qed

lemma move_result:
  assumes m: "move p = Inr p'"
    and "vx1 = vx p + dx p" and "vy1 = vy p + dy p"
    and "len = sqrt (vx1 * vx1 + vy1 * vy1)"
    and "vel = (velocity p + (len - 1)) * bool_real (velocity p + (len - 1) > 0)"
    and "theta = rot_dir p * vel /
           (real ((wd_width (worldDimension p) + wd_height (worldDimension p)) div 2) * 0.33) * vel"
    and "vx3 = vx1 / len * cos theta - vy1 / len * sin theta"
    and "vy3 = vy1 / len * cos theta + vx1 / len * sin theta"
    and "left1 = left p + vx3 * vel"
    and "left2 = left1 + (if left1 > 0 then 0 else real (wd_width (worldDimension p)))"
    and "top1 = top_p p + vy3 * vel"
    and "top2 = top1 + (if top1 > 0 then 0 else real (wd_height (worldDimension p)))"
  shows "p' = p\<lparr>vx := vx3, vy := vy3, dx := 0, dy := 0, velocity := vel,
                 left := left2 - (if left2 < real (wd_width (worldDimension p)) then 0
                                  else real (wd_width (worldDimension p))),
                 top_p := top2 - (if top2 < real (wd_height (worldDimension p)) then 0
                                  else real (wd_height (worldDimension p)))\<rparr>"
  using m unfolding move_def Let_def assms(2-)
  apply (drule_tac if_Inl_Inr)
  apply (erule conjE)
  apply (drule_tac if_Inl_Inr)
  apply (erule conjE)
  apply (drule sym)
  apply (simp only: sum.inject)
  done

lemma mask_positive: "x * bool_real (x > 0) = max 0 x"
  by (simp add: bool_real_def max_def)

lemma move_absorb:
  assumes m: "move p = Inr p'"
    and e: "vx1 = vx p + dx p" "vy1 = vy p + dy p" "len = sqrt (vx1 * vx1 + vy1 * vy1)"
      "theta = rot_dir p * velocity p' /
         (real ((wd_width (worldDimension p) + wd_height (worldDimension p)) div 2) * 0.33) *
         velocity p'"
      "left1 = left p + vx p' * velocity p'"
      "left2 = left1 + (if left1 > 0 then 0 else real (wd_width (worldDimension p)))"
      "top1 = top_p p + vy p' * velocity p'"
      "top2 = top1 + (if top1 > 0 then 0 else real (wd_height (worldDimension p)))"
  shows "map_p p' = map_p p \<and> age_map p' = age_map p \<and> segment p' = segment p \<and>
         seg_data p' = seg_data p \<and> width p' = width p \<and> height p' = height p \<and>
         mass p' = mass p \<and> dx p' = 0 \<and> dy p' = 0 \<and>
         p' = p\<lparr>vx := vx p', vy := vy p', dx := 0, dy := 0, velocity := velocity p',
                left := left p', top_p := top_p p'\<rparr> \<and>
         velocity p' = max 0 (velocity p + (len - 1)) \<and>
         left p' = left2 - (if left2 < real (wd_width (worldDimension p)) then 0
                            else real (wd_width (worldDimension p))) \<and>
         top_p p' = top2 - (if top2 < real (wd_height (worldDimension p)) then 0
                            else real (wd_height (worldDimension p))) \<and>
         (len > 0 \<longrightarrow>
            vx p' = vx1 / len * cos theta - vy1 / len * sin theta \<and>
            vy p' = vy1 / len * cos theta + vx1 / len * sin theta \<and>
            vx p' * vx p' + vy p' * vy p' = 1)"
proof -
  note r = move_result [OF m refl refl refl refl refl refl refl refl refl refl refl]
  have f: "dx p' = 0" "dy p' = 0"
    "map_p p' = map_p p" "age_map p' = age_map p" "segment p' = segment p"
    "seg_data p' = seg_data p" "width p' = width p" "height p' = height p" "mass p' = mass p"
    unfolding r by simp_all
  have fr: "p' = p\<lparr>vx := vx p', vy := vy p', dx := 0, dy := 0, velocity := velocity p',
                left := left p', top_p := top_p p'\<rparr>"
    unfolding r by simp
  have vel: "velocity p' = (velocity p + (len - 1)) * bool_real (velocity p + (len - 1) > 0)"
    unfolding e unfolding r by simp
  have v: "velocity p' = max 0 (velocity p + (len - 1))"
    unfolding vel by (rule mask_positive)
  have th: "theta = rot_dir p * ((velocity p + (len - 1)) * bool_real (velocity p + (len - 1) > 0)) /
         (real ((wd_width (worldDimension p) + wd_height (worldDimension p)) div 2) * 0.33) *
         ((velocity p + (len - 1)) * bool_real (velocity p + (len - 1) > 0))"
    unfolding e(4) vel ..
  have x: "vx p' = vx1 / len * cos theta - vy1 / len * sin theta"
    unfolding th unfolding e unfolding r by simp
  have y: "vy p' = vy1 / len * cos theta + vx1 / len * sin theta"
    unfolding th unfolding e unfolding r by simp
  have l: "left p' = left2 - (if left2 < real (wd_width (worldDimension p)) then 0
                            else real (wd_width (worldDimension p)))"
    unfolding e(5,6) x y vel unfolding th unfolding e unfolding r by simp
  have t: "top_p p' = top2 - (if top2 < real (wd_height (worldDimension p)) then 0
                            else real (wd_height (worldDimension p)))"
    unfolding e(7,8) x y vel unfolding th unfolding e unfolding r by simp
  have u: "vx p' * vx p' + vy p' * vy p' = 1" if "len > 0"
  proof -
    from that have "vx1 * vx1 + vy1 * vy1 > 0"
      unfolding e(3) by simp
    from unit_normal_norm [OF this]
    have "vx1 / len * (vx1 / len) + vy1 / len * (vy1 / len) = 1"
      unfolding e(3) .
    moreover have "cos theta * cos theta + sin theta * sin theta = 1"
      using sin_cos_squared_add2 [of theta] by (simp add: power2_eq_square)
    ultimately show ?thesis unfolding x y by (rule rotation_norm)
  qed
  from f fr v l t x y u show ?thesis by blast
qed

text \<open>
  C8. \<open>move()\<close> changes only the kinematic state: the origin, the direction, the scalar
  velocity and the impulse accumulator. The accumulator is absorbed and cleared: with
  \<open>len\<close> the length of \<open>(vx + dx, vy + dy)\<close>, the scalar velocity gains \<open>len - 1\<close>
  (and is 0 if that is negative), the new direction is the unit vector
  \<open>(vx + dx, vy + dy) / len\<close> turned by the angle of the circular motion, the origin
  advances by the new velocity along the new direction and is wrapped into the world, and
  \<open>dx = dy = 0\<close> afterwards. The height raster, the age raster, the segment array, the
  segment table, the raster dimensions and the mass are those of the plate before the
  call. The direction is stated for \<open>len > 0\<close>: the source divides by \<open>len\<close>.
\<close>

theorem move_frame:
  assumes "move p = Inr p'"
  shows "(let W = wd_width (worldDimension p); H = wd_height (worldDimension p);
              vx1 = vx p + dx p; vy1 = vy p + dy p;
              len = sqrt (vx1 * vx1 + vy1 * vy1);
              theta = rot_dir p * velocity p' / (real ((W + H) div 2) * 0.33) * velocity p';
              left1 = left p + vx p' * velocity p';
              left2 = left1 + (if left1 > 0 then 0 else real W);
              top1 = top_p p + vy p' * velocity p';
              top2 = top1 + (if top1 > 0 then 0 else real H)
          in map_p p' = map_p p \<and> age_map p' = age_map p \<and> segment p' = segment p \<and>
             seg_data p' = seg_data p \<and> width p' = width p \<and> height p' = height p \<and>
             mass p' = mass p \<and> dx p' = 0 \<and> dy p' = 0 \<and>
             p' = p\<lparr>vx := vx p', vy := vy p', dx := 0, dy := 0, velocity := velocity p',
                    left := left p', top_p := top_p p'\<rparr> \<and>
             velocity p' = max 0 (velocity p + (len - 1)) \<and>
             left p' = left2 - (if left2 < real W then 0 else real W) \<and>
             top_p p' = top2 - (if top2 < real H then 0 else real H) \<and>
             (len > 0 \<longrightarrow>
                vx p' = vx1 / len * cos theta - vy1 / len * sin theta \<and>
                vy p' = vy1 / len * cos theta + vx1 / len * sin theta \<and>
                vx p' * vx p' + vy p' * vy p' = 1))"
  unfolding Let_def
  by (rule move_absorb [OF assms refl refl refl refl refl refl refl refl])

lemma plate_E2_fields:
  "randsource plate_E2 = (\<lambda>i. 0)" "rand_pos plate_E2 = 2" "width plate_E2 = 2"
  "height plate_E2 = 2" "mass plate_E2 = 4" "left plate_E2 = 0" "top_p plate_E2 = 0"
  "cx plate_E2 = 1 / 2" "cy plate_E2 = 1 / 2" "dx plate_E2 = 0" "dy plate_E2 = 0"
  "vx plate_E2 = 1" "vy plate_E2 = 0" "velocity plate_E2 = 1" "rot_dir plate_E2 = 0"
  "map_p plate_E2 = [1, 1, 1, 1]" "age_map plate_E2 = [7, 7, 7, 7]"
  "segment plate_E2 = [SIZE_MAX, SIZE_MAX, SIZE_MAX, SIZE_MAX]" "seg_data plate_E2 = []"
  "worldDimension plate_E2 = world4"
  by (simp_all add: plate_E2_def)

lemma plate_E2_pushed_fields:
  "rot_dir plate_E2_pushed = 0" "dx plate_E2_pushed = 2" "dy plate_E2_pushed = 4"
  "vx plate_E2_pushed = 1" "vy plate_E2_pushed = 0" "velocity plate_E2_pushed = 1"
  "left plate_E2_pushed = 0" "top_p plate_E2_pushed = 0"
  "worldDimension plate_E2_pushed = world4"
  by (simp_all add: plate_E2_pushed_def plate_E2_fields)

lemma sqrt_25: "sqrt 25 = 5"
  by (rule real_sqrt_unique) simp_all

lemma move_pushed: "move plate_E2_pushed = Inr plate_E2_moved"
proof -
  have e: "plate_E2_pushed\<lparr>vx := 3 / 5, vy := 4 / 5, dx := 0, dy := 0, velocity := 5,
             left := 3, top_p := 0\<rparr> = plate_E2_moved"
    by (simp add: plate_E2_pushed_def plate_E2_moved_def plate_E2_def)
  have a: "(1::real) + 2 = 3" "(0::real) + 4 = 4" "(3::real) * 3 + 4 * 4 = 25"
    "(1::real) + (5 - 1) = 5" "(0::real) < 5"
    by simp_all
  show ?thesis
    unfolding move_def plate_E2_pushed_fields Let_def
    apply (simp only: a sqrt_25 bool_real_def if_True mult_1_right mult_zero_left div_0
        cos_zero sin_zero mult_zero_right diff_zero add_0 add_0_right)
    apply (simp add: world4_def wd_contains_def size_t_of_float_def size_t_of_int_def
        int_of_float_def e)
    done
qed

lemma plate_E2_moved_fields:
  "map_p plate_E2_moved = map_p plate_E2_pushed" "mass plate_E2_moved = mass plate_E2_pushed"
  "dx plate_E2_moved = 0" "dy plate_E2_moved = 0" "velocity plate_E2_moved = 5"
  "vx plate_E2_moved = 3 / 5" "vy plate_E2_moved = 4 / 5" "left plate_E2_moved = 3"
  "top_p plate_E2_moved = 0"
  by (simp_all add: plate_E2_pushed_def plate_E2_moved_def plate_E2_fields)

theorem move_frame_witness:
  "move plate_E2_pushed = Inr plate_E2_moved \<and>
   dx plate_E2_pushed = 2 \<and> dy plate_E2_pushed = 4 \<and>
   map_p plate_E2_moved = map_p plate_E2_pushed \<and>
   mass plate_E2_moved = mass plate_E2_pushed \<and>
   dx plate_E2_moved = 0 \<and> dy plate_E2_moved = 0 \<and>
   velocity plate_E2_moved = 5 \<and> vx plate_E2_moved = 3 / 5 \<and> vy plate_E2_moved = 4 / 5 \<and>
   left plate_E2_moved = 3 \<and> top_p plate_E2_moved = 0"
  using move_frame [OF move_pushed]
  by (simp only: move_pushed plate_E2_pushed_fields plate_E2_moved_fields)

text \<open>
  C9. Construction fails with \<open>InvalidArgument\<close>, and so produces no plate, when the
  height buffer is null or a dimension is not strictly positive; with a buffer and
  positive dimensions it returns a plate.
\<close>

theorem plate_ctor_errors:
  "(m = None \<or> w \<le> 0 \<or> h \<le> 0 \<longrightarrow>
      plate_ctor rs m w h x0 y0 plate_age wd = Inl InvalidArgument) \<and>
   (m \<noteq> None \<and> 0 < w \<and> 0 < h \<longrightarrow>
      (\<exists>p. plate_ctor rs m w h x0 y0 plate_age wd = Inr p))"
  by (auto simp: plate_ctor_def Let_def split: option.splits)

theorem plate_ctor_errors_witness:
  "plate_ctor (\<lambda>i. 0) None 2 2 0 0 7 world4 = Inl InvalidArgument \<and>
   plate_ctor (\<lambda>i. 0) (Some (\<lambda>k. 1)) 0 2 0 0 7 world4 = Inl InvalidArgument \<and>
   (\<exists>p. plate_ctor (\<lambda>i. 0) (Some (\<lambda>k. 1)) 2 2 0 0 7 world4 = Inr p)"
  using plate_ctor_errors [of None 2 2 "\<lambda>i. 0" 0 0 7 world4]
    plate_ctor_errors [of "Some (\<lambda>k. 1)" 0 2 "\<lambda>i. 0" 0 0 7 world4]
    plate_ctor_errors [of "Some (\<lambda>k. 1)" 2 2 "\<lambda>i. 0" 0 0 7 world4]
  by simp

subsection \<open>Collision response\<close>

lemma collide_cases:
  assumes "collide a b wx wy coll_mass = Inr (a', b')"
  shows "(let n = contact_normal a b wx wy;
              u = unit_normal a b wx wy;
              rel_dot_n = (vx a - vx b) * fst u + (vy a - vy b) * snd u
          in if fst n * fst n + snd n * snd n \<le> 0 \<or> rel_dot_n \<le> 0
             then a' = a \<and> b' = b
             else
               let J = - rel_dot_n / (1 / mass a + 1 / coll_mass)
               in a' = a\<lparr>dx := dx a + fst u * J / mass a, dy := dy a + snd u * J / mass a\<rparr> \<and>
                  b' = b\<lparr>dx := dx b - fst u * J / (coll_mass + mass b),
                         dy := dy b - snd u * J / (coll_mass + mass b)\<rparr>)"
  using assms unit_normal_norm
  by (auto simp: collide_def contact_normal_def unit_normal_def Let_def not_le
      split: prod.splits if_splits)

lemma plate_E3_A_fields:
  "width plate_E3_A = 3" "height plate_E3_A = 1" "mass plate_E3_A = 10" "left plate_E3_A = 0"
  "top_p plate_E3_A = 0" "cx plate_E3_A = 0" "cy plate_E3_A = 0" "dx plate_E3_A = 0"
  "dy plate_E3_A = 0" "vx plate_E3_A = 1" "vy plate_E3_A = 0" "velocity plate_E3_A = 0"
  "worldDimension plate_E3_A = world8"
  by (simp_all add: plate_E3_A_def)

lemma plate_E3_B_fields:
  "width plate_E3_B = 3" "height plate_E3_B = 1" "mass plate_E3_B = 100" "left plate_E3_B = 2"
  "top_p plate_E3_B = 0" "cx plate_E3_B = 2" "cy plate_E3_B = 0" "dx plate_E3_B = 0"
  "dy plate_E3_B = 0" "vx plate_E3_B = 0" "vy plate_E3_B = - 1" "velocity plate_E3_B = 0"
  "worldDimension plate_E3_B = world8"
  by (simp_all add: plate_E3_B_def)

lemma E3_index_A: "getMapIndex plate_E3_A 2 0 = (2, 2, 0)"
  unfolding getMapIndex_def plate_E3_A_fields
  by (simp add: world8_def rect_getMapIndex_def Rectangle_def size_t_of_int_def
      int_of_float_def)

lemma E3_index_B: "getMapIndex plate_E3_B 2 0 = (0, 0, 0)"
  unfolding getMapIndex_def plate_E3_B_fields
  by (simp add: world8_def rect_getMapIndex_def Rectangle_def size_t_of_int_def
      int_of_float_def)

lemma E3_contact_normal: "contact_normal plate_E3_A plate_E3_B 2 0 = (4, 0)"
  unfolding contact_normal_def E3_index_A E3_index_B plate_E3_A_fields plate_E3_B_fields
  by (simp add: int_of_float_def int_of_size_t_def)

lemma E3_unit_normal: "unit_normal plate_E3_A plate_E3_B 2 0 = (1, 0)"
  unfolding unit_normal_def E3_contact_normal
  by simp

lemma collide_eval:
  assumes "fst (getMapIndex a wx wy) < width a * height a"
    and "fst (getMapIndex b wx wy) < width b * height b"
    and "contact_normal a b wx wy = (nx, ny)" and "nx * nx + ny * ny > 0"
    and "unit_normal a b wx wy = (ux, uy)"
    and "(vx a - vx b) * ux + (vy a - vy b) * uy > 0"
  shows "collide a b wx wy coll_mass =
     Inr (a\<lparr>dx := dx a + ux * (- ((vx a - vx b) * ux + (vy a - vy b) * uy) /
                                  (1 / mass a + 1 / coll_mass)) / mass a,
             dy := dy a + uy * (- ((vx a - vx b) * ux + (vy a - vy b) * uy) /
                                  (1 / mass a + 1 / coll_mass)) / mass a\<rparr>,
          b\<lparr>dx := dx b - ux * (- ((vx a - vx b) * ux + (vy a - vy b) * uy) /
                                  (1 / mass a + 1 / coll_mass)) / (coll_mass + mass b),
            dy := dy b - uy * (- ((vx a - vx b) * ux + (vy a - vy b) * uy) /
                                  (1 / mass a + 1 / coll_mass)) / (coll_mass + mass b)\<rparr>)"
proof -
  obtain index apx apy where ga: "getMapIndex a wx wy = (index, apx, apy)"
    by (cases "getMapIndex a wx wy")
  obtain p_index bpx bpy where gb: "getMapIndex b wx wy = (p_index, bpx, bpy)"
    by (cases "getMapIndex b wx wy")
  from assms(3) have nx: "real_of_int (int_of_size_t apx - int_of_float (cx a)) -
      real_of_int (int_of_size_t bpx - int_of_float (cx b)) = nx"
    and ny: "real_of_int (int_of_size_t apy - int_of_float (cy a)) -
      real_of_int (int_of_size_t bpy - int_of_float (cy b)) = ny"
    by (simp_all add: contact_normal_def ga gb)
  from assms(5) have ux: "nx / sqrt (nx * nx + ny * ny) = ux"
    and uy: "ny / sqrt (nx * nx + ny * ny) = uy"
    by (simp_all add: unit_normal_def assms(3))
  have one: "ux * ux + uy * uy = 1"
    using unit_normal_norm [OF assms(4)] ux uy by simp
  from assms(1,2) have i: "index < width a * height a" "p_index < width b * height b"
    by (simp_all add: ga gb)
  show ?thesis
    unfolding collide_def ga gb Let_def prod.case nx ny ux uy
    using i assms(4,6) one by simp
qed

lemma E3_run:
  "collide plate_E3_A plate_E3_B 2 0 10 =
     Inr (plate_E3_A\<lparr>dx := - 1 / 2\<rparr>, plate_E3_B\<lparr>dx := 1 / 22\<rparr>)"
proof -
  have a: "plate_E3_A\<lparr>dx := - 1 / 2, dy := 0\<rparr> = plate_E3_A\<lparr>dx := - 1 / 2\<rparr>"
    by (simp add: plate_E3_A_def)
  have b: "plate_E3_B\<lparr>dx := 1 / 22, dy := 0\<rparr> = plate_E3_B\<lparr>dx := 1 / 22\<rparr>"
    by (simp add: plate_E3_B_def)
  have "collide plate_E3_A plate_E3_B 2 0 10 =
     Inr (plate_E3_A\<lparr>dx := - 1 / 2, dy := 0\<rparr>, plate_E3_B\<lparr>dx := 1 / 22, dy := 0\<rparr>)"
    using collide_eval [of plate_E3_A 2 0 plate_E3_B 4 0 1 0 10]
    unfolding E3_index_A E3_index_B E3_contact_normal E3_unit_normal plate_E3_A_fields
      plate_E3_B_fields
    by simp
  then show ?thesis by (simp only: a b)
qed

lemma collide_asserts:
  assumes "collide a b wx wy coll_mass = Inr r"
  shows "fst (getMapIndex a wx wy) < width a * height a \<and>
         fst (getMapIndex b wx wy) < width b * height b"
proof -
  obtain index apx apy where ga: "getMapIndex a wx wy = (index, apx, apy)"
    by (cases "getMapIndex a wx wy")
  obtain p_index bpx bpy where gb: "getMapIndex b wx wy = (p_index, bpx, bpy)"
    by (cases "getMapIndex b wx wy")
  from assms show ?thesis
    unfolding collide_def ga gb prod.case Let_def fst_conv
    apply (cases "index < width a * height a")
     apply (cases "p_index < width b * height b")
      apply (rule conjI, assumption, assumption)
     apply (simp only: not_True_eq_False not_False_eq_True if_True if_False)
     apply simp
    apply (simp only: not_True_eq_False not_False_eq_True if_True if_False)
    apply simp
    done
qed

lemma if_else_weaken: "(if c then P else Q) \<Longrightarrow> (if c then P else (H \<longrightarrow> Q))"
  by simp

text \<open>
  C2. \<open>collide(other, wx, wy, collMass)\<close>: when the squared contact normal is not
  positive, or the relative velocity projected on the unit normal is not positive, neither
  plate changes. Otherwise, with \<open>J = - ((vA - vB) . n) / (1 / A.mass + 1 / collMass)\<close>,
  the impulse accumulator of the calling plate gains \<open>n * J / A.mass\<close>, that of the other
  plate loses \<open>n * J / (collMass + B.mass)\<close>, and nothing else changes. The impulse is
  stated for divisors that are not zero: \<open>A.mass\<close>, \<open>collMass\<close>, their sum (so that
  \<open>1 / A.mass + 1 / collMass\<close> is not zero) and \<open>collMass + B.mass\<close>.
\<close>

theorem collide_impulse:
  assumes "collide a b wx wy coll_mass = Inr (a', b')"
  shows "(let n = contact_normal a b wx wy;
              u = unit_normal a b wx wy;
              rel_dot_n = (vx a - vx b) * fst u + (vy a - vy b) * snd u
          in if fst n * fst n + snd n * snd n \<le> 0 \<or> rel_dot_n \<le> 0
             then a' = a \<and> b' = b
             else
               mass a \<noteq> 0 \<and> coll_mass \<noteq> 0 \<and> mass a + coll_mass \<noteq> 0 \<and>
               coll_mass + mass b \<noteq> 0 \<longrightarrow>
               (let J = - rel_dot_n / (1 / mass a + 1 / coll_mass)
                in a' = a\<lparr>dx := dx a + fst u * J / mass a, dy := dy a + snd u * J / mass a\<rparr> \<and>
                   b' = b\<lparr>dx := dx b - fst u * J / (coll_mass + mass b),
                          dy := dy b - snd u * J / (coll_mass + mass b)\<rparr>))"
  using collide_cases [OF assms] unfolding Let_def
  by (rule if_else_weaken)

theorem collide_impulse_witness:
  "collide plate_E3_A plate_E3_B 2 0 10 =
     Inr (plate_E3_A\<lparr>dx := - 1 / 2\<rparr>, plate_E3_B\<lparr>dx := 1 / 22\<rparr>) \<and>
   contact_normal plate_E3_A plate_E3_B 2 0 = (4, 0) \<and>
   unit_normal plate_E3_A plate_E3_B 2 0 = (1, 0) \<and>
   mass plate_E3_A \<noteq> 0 \<and> (10::real) \<noteq> 0 \<and> mass plate_E3_A + 10 \<noteq> 0 \<and>
   10 + mass plate_E3_B \<noteq> 0 \<and>
   plate_E3_A\<lparr>dx := - 1 / 2\<rparr> =
     plate_E3_A\<lparr>dx := dx plate_E3_A + 1 * (- 1 / (1 / 10 + 1 / 10)) / 10, dy := dy plate_E3_A + 0\<rparr> \<and>
   plate_E3_B\<lparr>dx := 1 / 22\<rparr> =
     plate_E3_B\<lparr>dx := dx plate_E3_B - 1 * (- 1 / (1 / 10 + 1 / 10)) / (10 + 100), dy := dy plate_E3_B - 0\<rparr>"
  using collide_impulse [OF E3_run]
  unfolding E3_contact_normal E3_unit_normal plate_E3_A_fields plate_E3_B_fields
  by (simp add: E3_run Let_def)

text \<open>
  C3, as amended. In the scenario E3 (plate A of mass 10, plate B of mass 100, zero impulse
  accumulators, relative velocity \<open>(1,1)\<close>, unit contact normal \<open>(1,0)\<close>,
  \<open>collMass = 10\<close>) the accumulators after \<open>collide\<close> are \<open>A.dx = - 1 / 2\<close>,
  \<open>B.dx = 1 / 22\<close> and \<open>A.dy = B.dy = 0\<close>.
\<close>

theorem collide_E3_amended:
  assumes "collide a b wx wy 10 = Inr (a', b')"
    and "mass a = 10" and "mass b = 100"
    and "dx a = 0" and "dy a = 0" and "dx b = 0" and "dy b = 0"
    and "unit_normal a b wx wy = (1, 0)"
    and "vx a - vx b = 1" and "vy a - vy b = 1"
  shows "dx a' = - 1 / 2 \<and> dy a' = 0 \<and> dx b' = 1 / 22 \<and> dy b' = 0"
proof -
  obtain nx ny where n: "contact_normal a b wx wy = (nx, ny)"
    by (cases "contact_normal a b wx wy")
  have "\<not> nx * nx + ny * ny \<le> 0"
  proof
    assume "nx * nx + ny * ny \<le> 0"
    then have "nx = 0" by (simp add: sum_squares_le_zero_iff)
    with assms(8) n show False by (simp add: unit_normal_def)
  qed
  then have nz: "nx * nx + ny * ny > 0" by simp
  have rel: "(vx a - vx b) * 1 + (vy a - vy b) * 0 > 0"
    by (simp add: assms(9))
  note ok = collide_asserts [OF assms(1)]
  note ev = collide_eval [OF conjunct1 [OF ok] conjunct2 [OF ok] n nz assms(8) rel, of 10]
  from assms(1) have "a' = fst (projr (collide a b wx wy 10))"
    and "b' = snd (projr (collide a b wx wy 10))"
    by simp_all
  then have a': "dx a' = dx a + 1 * (- ((vx a - vx b) * 1 + (vy a - vy b) * 0) /
                                  (1 / mass a + 1 / 10)) / mass a"
    and a'': "dy a' = dy a + 0 * (- ((vx a - vx b) * 1 + (vy a - vy b) * 0) /
                                  (1 / mass a + 1 / 10)) / mass a"
    and b': "dx b' = dx b - 1 * (- ((vx a - vx b) * 1 + (vy a - vy b) * 0) /
                                  (1 / mass a + 1 / 10)) / (10 + mass b)"
    and b'': "dy b' = dy b - 0 * (- ((vx a - vx b) * 1 + (vy a - vy b) * 0) /
                                  (1 / mass a + 1 / 10)) / (10 + mass b)"
    unfolding ev sum.sel fst_conv snd_conv by simp_all
  show ?thesis
    unfolding a' a'' b' b'' assms(2-7,9,10) by simp
qed

theorem collide_E3_amended_witness:
  "collide plate_E3_A plate_E3_B 2 0 10 =
     Inr (plate_E3_A\<lparr>dx := - 1 / 2\<rparr>, plate_E3_B\<lparr>dx := 1 / 22\<rparr>) \<and>
   mass plate_E3_A = 10 \<and> mass plate_E3_B = 100 \<and>
   unit_normal plate_E3_A plate_E3_B 2 0 = (1, 0) \<and>
   vx plate_E3_A - vx plate_E3_B = 1 \<and> vy plate_E3_A - vy plate_E3_B = 1 \<and>
   dx (plate_E3_A\<lparr>dx := - 1 / 2\<rparr>) = - 1 / 2 \<and> dy (plate_E3_A\<lparr>dx := - 1 / 2\<rparr>) = 0 \<and>
   dx (plate_E3_B\<lparr>dx := 1 / 22\<rparr>) = 1 / 22 \<and> dy (plate_E3_B\<lparr>dx := 1 / 22\<rparr>) = 0"
proof -
  have f: "mass plate_E3_A = 10" "mass plate_E3_B = 100" "dx plate_E3_A = 0" "dy plate_E3_A = 0"
    "dx plate_E3_B = 0" "dy plate_E3_B = 0"
    "vx plate_E3_A - vx plate_E3_B = 1" "vy plate_E3_A - vy plate_E3_B = 1"
    by (simp_all add: plate_E3_A_fields plate_E3_B_fields)
  from collide_E3_amended [OF E3_run f(1-6) E3_unit_normal f(7,8)] E3_run f E3_unit_normal
  show ?thesis by simp
qed

text \<open>
  C3, as stated, fails: for the two plates \<open>plate_E3_A\<close> and \<open>plate_E3_B\<close>, which
  realise the scenario, \<open>A.dx\<close> is \<open>- 1 / 2\<close> and not \<open>- 10 / 11\<close>, and \<open>B.dx\<close> is
  \<open>1 / 22\<close> and not \<open>1 / 11\<close>.
\<close>

theorem collide_E3_counterexample:
  "collide plate_E3_A plate_E3_B 2 0 10 =
     Inr (plate_E3_A\<lparr>dx := - 1 / 2\<rparr>, plate_E3_B\<lparr>dx := 1 / 22\<rparr>) \<and>
   mass plate_E3_A = 10 \<and> mass plate_E3_B = 100 \<and>
   velocity plate_E3_A = 0 \<and> velocity plate_E3_B = 0 \<and>
   dx plate_E3_A = 0 \<and> dy plate_E3_A = 0 \<and> dx plate_E3_B = 0 \<and> dy plate_E3_B = 0 \<and>
   vx plate_E3_A - vx plate_E3_B = 1 \<and> vy plate_E3_A - vy plate_E3_B = 1 \<and>
   unit_normal plate_E3_A plate_E3_B 2 0 = (1, 0) \<and>
   dx (plate_E3_A\<lparr>dx := - 1 / 2\<rparr>) \<noteq> - 10 / 11 \<and>
   dx (plate_E3_B\<lparr>dx := 1 / 22\<rparr>) \<noteq> 1 / 11"
  by (simp add: E3_run E3_unit_normal plate_E3_A_fields plate_E3_B_fields)

subsection \<open>Subduction\<close>

lemma subduction_hint_cases:
  "(vx p * ddx + vy p * ddy > 0 \<longrightarrow>
      subduction_hint p ddx ddy = (ddx - vx p, ddy - vy p) \<and>
      vx p * fst (subduction_hint p ddx ddy) + vy p * snd (subduction_hint p ddx ddy) =
        (vx p * ddx + vy p * ddy) - (vx p * vx p + vy p * vy p)) \<and>
   (\<not> vx p * ddx + vy p * ddy > 0 \<longrightarrow> subduction_hint p ddx ddy = (ddx, ddy))"
  by (simp add: subduction_hint_def bool_real_def algebra_simps)

lemma nested_if_result:
  "(if A then (if \<not> B then Inl e else if C then Inr X else Inr Y) else Inr Y) = Inr p' \<Longrightarrow>
   p' = (if A \<and> C then X else Y)"
  by (simp split: if_splits)

lemma addCrustBySubduction_result:
  assumes run: "addCrustBySubduction p x y z t ddx ddy = Inr p'"
    and e: "h = subduction_hint p ddx ddy"
      "offset = subduction_offset (randsource p (rand_pos p)) (randsource p (Suc (rand_pos p)))"
      "x2 = size_t_of_float (real_of_int (int_of_size_t (fst (snd (getMapIndex p x y)))) +
                              (10 * fst h + 3 * offset))"
      "y2 = size_t_of_float (real_of_int (int_of_size_t (snd (snd (getMapIndex p x y)))) +
                              (10 * snd h + 3 * offset))"
      "x3 = (if width p = wd_width (worldDimension p) then x2 mod width p else x2)"
      "y3 = (if height p = wd_height (worldDimension p) then y2 mod height p else y2)"
      "index = (y3 * width p + x3) mod 2 ^ 64"
  shows "p' =
     (if index < width p * height p \<and> map_p p ! index > 0
      then p\<lparr>rand_pos := Suc (Suc (rand_pos p)),
             age_map := (age_map p)[index := mask_if (z > 0)
                (size_t_of_float ((map_p p ! index * real (age_map p ! index) + z * real t) /
                                  (map_p p ! index + z)))],
             map_p := (map_p p)[index := map_p p ! index + z],
             mass := mass p + z\<rparr>
      else p\<lparr>rand_pos := Suc (Suc (rand_pos p))\<rparr>)"
proof -
  obtain index0 x1 y1 where g: "getMapIndex p x y = (index0, x1, y1)"
    by (cases "getMapIndex p x y")
  obtain dx1 dy1 where s: "subduction_hint p ddx ddy = (dx1, dy1)"
    by (cases "subduction_hint p ddx ddy")
  define p1 where "p1 = p\<lparr>rand_pos := Suc (rand_pos p)\<rparr>"
  define p2 where "p2 = p\<lparr>rand_pos := Suc (Suc (rand_pos p))\<rparr>"
  have r1: "rand_next p = (randsource p (rand_pos p), p1)"
    by (simp add: rand_next_def p1_def)
  have r2: "rand_next p1 = (randsource p (Suc (rand_pos p)), p2)"
    by (simp add: rand_next_def p1_def p2_def)
  have f: "width p2 = width p" "height p2 = height p" "worldDimension p2 = worldDimension p"
    "map_p p2 = map_p p" "age_map p2 = age_map p" "mass p2 = mass p"
    by (simp_all add: p2_def)
  have i: "index =
      ((if height p = wd_height (worldDimension p)
        then size_t_of_float (real_of_int (int_of_size_t y1) +
               (10 * dy1 + 3 * subduction_offset (randsource p (rand_pos p))
                                  (randsource p (Suc (rand_pos p))))) mod height p
        else size_t_of_float (real_of_int (int_of_size_t y1) +
               (10 * dy1 + 3 * subduction_offset (randsource p (rand_pos p))
                                  (randsource p (Suc (rand_pos p)))))) * width p +
       (if width p = wd_width (worldDimension p)
        then size_t_of_float (real_of_int (int_of_size_t x1) +
               (10 * dx1 + 3 * subduction_offset (randsource p (rand_pos p))
                                  (randsource p (Suc (rand_pos p))))) mod width p
        else size_t_of_float (real_of_int (int_of_size_t x1) +
               (10 * dx1 + 3 * subduction_offset (randsource p (rand_pos p))
                                  (randsource p (Suc (rand_pos p))))))) mod 2 ^ 64"
    unfolding e g s fst_conv snd_conv ..
  from run have "p' =
     (if index < width p * height p \<and> map_p p ! index > 0
      then p2\<lparr>age_map := (age_map p)[index := mask_if (z > 0)
                (size_t_of_float ((map_p p ! index * real (age_map p ! index) + z * real t) /
                                  (map_p p ! index + z)))],
             map_p := (map_p p)[index := map_p p ! index + z],
             mass := mass p + z\<rparr>
      else p2)"
    unfolding addCrustBySubduction_def g s r1 r2 prod.case Let_def f i [symmetric]
    by (rule nested_if_result)
  then show ?thesis unfolding p2_def by simp
qed

text \<open>
  C6, as amended. In \<open>addCrustBySubduction\<close>, whenever the dot product of the hint
  \<open>(dx,dy)\<close> with the plate's own direction \<open>(vx,vy)\<close> is positive, the direction itself
  is subtracted from the hint: the adjusted hint is \<open>(dx - vx, dy - vy)\<close>, and its dot
  product with \<open>(vx,vy)\<close> is the old one less \<open>vx * vx + vy * vy\<close>. Otherwise the hint is
  unchanged. The noise and the factor 10 are applied to the adjusted hint \<open>h\<close>: the crust
  is deposited in the cell \<open>(x + 10 * h + 3 * offset)\<close>, each coordinate converted to
  \<open>size_t\<close>, when that cell belongs to the raster and has crust already; the plate is
  otherwise unchanged, two draws of the generator apart.
\<close>

theorem subduction_hint_difference:
  assumes "addCrustBySubduction p x y z t ddx ddy = Inr p'"
  shows "(let dot = vx p * ddx + vy p * ddy;
              h = (if dot > 0 then (ddx - vx p, ddy - vy p) else (ddx, ddy));
              offset = subduction_offset (randsource p (rand_pos p))
                         (randsource p (Suc (rand_pos p)));
              x2 = size_t_of_float
                     (real_of_int (int_of_size_t (fst (snd (getMapIndex p x y)))) +
                      (10 * fst h + 3 * offset));
              y2 = size_t_of_float
                     (real_of_int (int_of_size_t (snd (snd (getMapIndex p x y)))) +
                      (10 * snd h + 3 * offset));
              x3 = (if width p = wd_width (worldDimension p) then x2 mod width p else x2);
              y3 = (if height p = wd_height (worldDimension p) then y2 mod height p else y2);
              index = (y3 * width p + x3) mod 2 ^ 64
          in (dot > 0 \<longrightarrow> vx p * fst h + vy p * snd h = dot - (vx p * vx p + vy p * vy p)) \<and>
             p' =
               (if index < width p * height p \<and> map_p p ! index > 0
                then p\<lparr>rand_pos := Suc (Suc (rand_pos p)),
                       age_map := (age_map p)[index := mask_if (z > 0)
                          (size_t_of_float
                             ((map_p p ! index * real (age_map p ! index) + z * real t) /
                              (map_p p ! index + z)))],
                       map_p := (map_p p)[index := map_p p ! index + z],
                       mass := mass p + z\<rparr>
                else p\<lparr>rand_pos := Suc (Suc (rand_pos p))\<rparr>))"
proof -
  have h: "(if vx p * ddx + vy p * ddy > 0 then (ddx - vx p, ddy - vy p) else (ddx, ddy)) =
           subduction_hint p ddx ddy"
    using subduction_hint_cases [of p ddx ddy] by simp
  have d: "vx p * ddx + vy p * ddy > 0 \<longrightarrow>
      vx p * fst (subduction_hint p ddx ddy) + vy p * snd (subduction_hint p ddx ddy) =
        (vx p * ddx + vy p * ddy) - (vx p * vx p + vy p * vy p)"
    using subduction_hint_cases [of p ddx ddy] by blast
  show ?thesis
    unfolding Let_def h
    by (rule conjI [OF d addCrustBySubduction_result [OF assms refl refl refl refl refl refl refl]])
qed

lemma E2_index_0_0: "getMapIndex plate_E2 0 0 = (0, 0, 0)"
  unfolding getMapIndex_def plate_E2_fields
  by (simp add: world4_def rect_getMapIndex_def Rectangle_def size_t_of_int_def int_of_float_def)

lemma E2_hint: "subduction_hint plate_E2 (11 / 10) 0 = (1 / 10, 0)"
  by (simp add: subduction_hint_def plate_E2_fields bool_real_def)

lemma subduction_offset_0: "subduction_offset 0 r1 = 0"
  by (simp add: subduction_offset_def)

lemma size_t_of_float_small: "size_t_of_float 0 = 0" "size_t_of_float 1 = 1" "size_t_of_float 5 = 5"
  by (simp_all add: size_t_of_float_def size_t_of_int_def int_of_float_def)

lemma E2_subduction:
  "addCrustBySubduction plate_E2 0 0 1 3 (11 / 10) 0 = Inr plate_E2_subducted"
proof -
  have r: "rand_next plate_E2 = (0, plate_E2\<lparr>rand_pos := 3\<rparr>)"
    "rand_next (plate_E2\<lparr>rand_pos := 3\<rparr>) = (0, plate_E2\<lparr>rand_pos := 4\<rparr>)"
    by (simp_all add: rand_next_def plate_E2_def)
  have f: "width (plate_E2\<lparr>rand_pos := 4\<rparr>) = 2" "height (plate_E2\<lparr>rand_pos := 4\<rparr>) = 2"
    "worldDimension (plate_E2\<lparr>rand_pos := 4\<rparr>) = world4"
    "map_p (plate_E2\<lparr>rand_pos := 4\<rparr>) = [1, 1, 1, 1]"
    "age_map (plate_E2\<lparr>rand_pos := 4\<rparr>) = [7, 7, 7, 7]"
    "mass (plate_E2\<lparr>rand_pos := 4\<rparr>) = 4"
    by (simp_all add: plate_E2_fields)
  have a: "real_of_int (int_of_size_t 0) + (10 * (1 / 10) + 3 * 0) = (1::real)"
    "real_of_int (int_of_size_t 0) + (10 * 0 + 3 * 0) = (0::real)"
    by (simp_all add: int_of_size_t_def)
  have e: "plate_E2\<lparr>rand_pos := 4, age_map := [7, 5, 7, 7], map_p := [1, 2, 1, 1], mass := 5\<rparr> =
      plate_E2_subducted"
    by (simp add: plate_E2_subducted_def plate_E2_def)
  show ?thesis
    unfolding addCrustBySubduction_def E2_index_0_0 E2_hint r prod.case Let_def
      subduction_offset_0 a size_t_of_float_small f
    by (simp add: world4_def mask_if_def size_t_of_float_small e)
qed

lemma plate_E2_subducted_fields:
  "map_p plate_E2_subducted = [1, 2, 1, 1]" "mass plate_E2_subducted = 5"
  "age_map plate_E2_subducted = [7, 5, 7, 7]" "rand_pos plate_E2_subducted = 4"
  by (simp_all add: plate_E2_subducted_def)

theorem subduction_hint_difference_witness:
  "addCrustBySubduction plate_E2 0 0 1 3 (11 / 10) 0 = Inr plate_E2_subducted \<and>
   vx plate_E2 * (11 / 10) + vy plate_E2 * 0 > 0 \<and>
   vx plate_E2 * (11 / 10 - vx plate_E2) + vy plate_E2 * (0 - vy plate_E2) =
     (vx plate_E2 * (11 / 10) + vy plate_E2 * 0) -
     (vx plate_E2 * vx plate_E2 + vy plate_E2 * vy plate_E2) \<and>
   size_t_of_float (real_of_int (int_of_size_t 0) +
      (10 * (11 / 10 - vx plate_E2) + 3 * subduction_offset 0 0)) = 1 \<and>
   map_p plate_E2 ! 1 > 0 \<and>
   plate_E2_subducted =
     plate_E2\<lparr>rand_pos := Suc (Suc (rand_pos plate_E2)),
       age_map := (age_map plate_E2)[1 := 5],
       map_p := (map_p plate_E2)[1 := map_p plate_E2 ! 1 + 1],
       mass := mass plate_E2 + 1\<rparr>"
proof -
  have e: "plate_E2_subducted =
     plate_E2\<lparr>rand_pos := Suc (Suc (rand_pos plate_E2)),
       age_map := (age_map plate_E2)[1 := 5],
       map_p := (map_p plate_E2)[1 := map_p plate_E2 ! 1 + 1],
       mass := mass plate_E2 + 1\<rparr>"
    by (simp add: plate_E2_subducted_def plate_E2_def)
  have c: "size_t_of_float (real_of_int (int_of_size_t 0) +
      (10 * (11 / 10 - vx plate_E2) + 3 * subduction_offset 0 0)) = 1"
    by (simp add: plate_E2_fields subduction_offset_0 int_of_size_t_def size_t_of_float_small)
  have d: "vx plate_E2 * (11 / 10) + vy plate_E2 * 0 > 0" "map_p plate_E2 ! 1 > 0"
    by (simp_all add: plate_E2_fields)
  from subduction_hint_difference [OF E2_subduction] d
  have "vx plate_E2 * (11 / 10 - vx plate_E2) + vy plate_E2 * (0 - vy plate_E2) =
     (vx plate_E2 * (11 / 10) + vy plate_E2 * 0) -
     (vx plate_E2 * vx plate_E2 + vy plate_E2 * vy plate_E2)"
    unfolding Let_def by simp
  with E2_subduction e c d show ?thesis by blast
qed

text \<open>
  C6, as stated, fails: for the unit direction \<open>(1,0)\<close> and the hint \<open>(1.1, 0)\<close> the dot
  product is positive and the adjusted hint \<open>(0.1, 0)\<close> is not orthogonal to the direction:
  without noise (the draw is 0), \<open>addCrustBySubduction(0, 0, 1, 3, 1.1, 0)\<close> deposits the
  crust in the cell 1, one cell along the direction, and not in the cell 0.
\<close>

theorem subduction_hint_counterexample:
  "vx plate_E2 * (11 / 10) + vy plate_E2 * 0 > 0 \<and>
   vx plate_E2 * vx plate_E2 + vy plate_E2 * vy plate_E2 = 1 \<and>
   vx plate_E2 * fst (subduction_hint plate_E2 (11 / 10) 0) +
     vy plate_E2 * snd (subduction_hint plate_E2 (11 / 10) 0) \<noteq> 0 \<and>
   addCrustBySubduction plate_E2 0 0 1 3 (11 / 10) 0 = Inr plate_E2_subducted \<and>
   map_p plate_E2 = [1, 1, 1, 1] \<and> map_p plate_E2_subducted = [1, 2, 1, 1]"
  by (simp add: E2_hint plate_E2_fields E2_subduction plate_E2_subducted_fields)

subsection \<open>Growth of the raster\<close>

lemma scale8_dvd: "8 dvd scale8 d"
  by (simp add: scale8_def)

lemma sub_size_t_le:
  assumes "b \<le> a" and "a < 2 ^ 64"
  shows "sub_size_t a b = a - b"
proof -
  have b: "b mod 2 ^ 64 = b" using assms by simp
  have "a + 2 ^ 64 - b = (a - b) + 2 ^ 64" using assms by simp
  then have "(a + 2 ^ 64 - b) mod 2 ^ 64 = (a - b) mod 2 ^ 64"
    by (metis mod_add_self2)
  also have "\<dots> = a - b" using assms by simp
  finally show ?thesis unfolding sub_size_t_def b .
qed

lemma growth_scaled_dvd:
  assumes "growth_scaled p x y = (l, r, t, b)"
  shows "8 dvd l \<and> 8 dvd r \<and> 8 dvd t \<and> 8 dvd b"
  using assms unfolding growth_scaled_def Let_def by (auto simp: scale8_dvd)

lemma growth_clamp:
  assumes g: "growth_scaled p x y = (l, r, t, b)"
    and w: "width p \<le> wd_width (worldDimension p)"
    and h: "height p \<le> wd_height (worldDimension p)"
    and W: "wd_width (worldDimension p) < 2 ^ 64" and H: "wd_height (worldDimension p) < 2 ^ 64"
  shows "growth p x y =
     (if width p + l + r > wd_width (worldDimension p) then 0 else l,
      if width p + l + r > wd_width (worldDimension p)
      then wd_width (worldDimension p) - width p else r,
      if height p + t + b > wd_height (worldDimension p) then 0 else t,
      if height p + t + b > wd_height (worldDimension p)
      then wd_height (worldDimension p) - height p else b)"
  unfolding growth_def g prod.case Let_def sub_size_t_le [OF w W] sub_size_t_le [OF h H]
  by simp

lemma growth_bounds:
  assumes "growth p x y = (d_lft, d_rgt, d_top, d_btm)"
    and "width p \<le> wd_width (worldDimension p)" and "height p \<le> wd_height (worldDimension p)"
    and "wd_width (worldDimension p) < 2 ^ 64" and "wd_height (worldDimension p) < 2 ^ 64"
  shows "width p + d_lft + d_rgt \<le> wd_width (worldDimension p) \<and>
         height p + d_top + d_btm \<le> wd_height (worldDimension p)"
proof -
  obtain l r t b where g: "growth_scaled p x y = (l, r, t, b)"
    by (cases "growth_scaled p x y") auto
  from assms(1) [unfolded growth_clamp [OF g assms(2-5)]] assms(2,3)
  show ?thesis by (auto split: if_splits)
qed

lemma setCrust_cases:
  assumes "setCrust p x y z t = Inr p'"
  obtains (inside) "fst (getMapIndex p x y) < width p * height p"
      and "update_cell p (fst (getMapIndex p x y)) (if z < 0 then 0 else z) t = Inr p'"
  | (grown) p1 index where "\<not> fst (getMapIndex p x y) < width p * height p"
      and "grow p x y (if z < 0 then 0 else z) = Inr (p1, index)"
      and "update_cell p1 index (if z < 0 then 0 else z) t = Inr p'"
proof -
  obtain index0 a b where i: "getMapIndex p x y = (index0, a, b)"
    by (cases "getMapIndex p x y")
  show ?thesis
  proof (cases "index0 \<ge> width p * height p")
    case True
    with assms i obtain p1 index where "grow p x y (if z < 0 then 0 else z) = Inr (p1, index)"
      and "update_cell p1 index (if z < 0 then 0 else z) t = Inr p'"
      unfolding setCrust_def Let_def by (auto split: sum.splits)
    with True i grown show ?thesis by simp
  next
    case False
    with assms i have "update_cell p index0 (if z < 0 then 0 else z) t = Inr p'"
      unfolding setCrust_def Let_def by simp
    with False i inside show ?thesis by simp
  qed
qed

lemma update_cell_fields:
  assumes "update_cell p index z t = Inr p'"
  shows "index < length (map_p p)" and "index < length (age_map p)"
    and "map_p p' = (map_p p)[index := z]"
    and "mass p' = mass p - map_p p ! index + z"
    and "length (age_map p') = length (age_map p)"
    and "width p' = width p" and "height p' = height p"
    and "left p' = left p" and "top_p p' = top_p p"
    and "worldDimension p' = worldDimension p"
    and "segment p' = segment p" and "seg_data p' = seg_data p"
  using assms unfolding update_cell_def Let_def
  by (auto split: if_splits)

lemma grow_dims:
  assumes gr: "grow p x y z = Inr (p1, index)"
    and n: "wd_normalize (worldDimension p) x y = (x1, y1)"
    and g: "growth_scaled p x1 y1 = (l, r, t, b)"
    and w: "width p \<le> wd_width (worldDimension p)"
    and h: "height p \<le> wd_height (worldDimension p)"
    and W: "wd_width (worldDimension p) < 2 ^ 64" and H: "wd_height (worldDimension p) < 2 ^ 64"
  shows "worldDimension p1 = worldDimension p \<and>
         width p1 = (if width p + l + r > wd_width (worldDimension p)
                     then wd_width (worldDimension p) else width p + l + r) \<and>
         height p1 = (if height p + t + b > wd_height (worldDimension p)
                      then wd_height (worldDimension p) else height p + t + b)"
proof -
  obtain d_lft d_rgt d_top d_btm where d: "growth p x1 y1 = (d_lft, d_rgt, d_top, d_btm)"
    by (cases "growth p x1 y1") auto
  from gr n d have
    p1: "width p1 = width p + d_lft + d_rgt" "height p1 = height p + d_top + d_btm"
      "worldDimension p1 = worldDimension p"
    by (auto simp: grow_def Let_def split: if_splits sum.splits prod.splits)
  from d [unfolded growth_clamp [OF g w h W H]] p1 w h show ?thesis
    by (auto split: if_splits)
qed

text \<open>
  C7, as amended. A \<open>setCrust\<close> call on a plate no larger than the world never shrinks
  the raster, and leaves it no larger than the world. A call on a point of the raster
  leaves the dimensions as they are. A call on a point outside it grows the raster: the
  four distances the source has scaled are multiples of 8, and each dimension grows by
  the sum of its two, a multiple of 8 cells, unless that would exceed the world's side:
  then the dimension becomes exactly the world's side.
\<close>

theorem setCrust_growth:
  assumes "setCrust p x y z t = Inr p'"
    and "width p \<le> wd_width (worldDimension p)" and "height p \<le> wd_height (worldDimension p)"
    and "wd_width (worldDimension p) < 2 ^ 64" and "wd_height (worldDimension p) < 2 ^ 64"
  shows "width p \<le> width p' \<and> width p' \<le> wd_width (worldDimension p) \<and>
         height p \<le> height p' \<and> height p' \<le> wd_height (worldDimension p) \<and>
         (if fst (getMapIndex p x y) < width p * height p
          then width p' = width p \<and> height p' = height p
          else
            (case wd_normalize (worldDimension p) x y of (x1, y1) \<Rightarrow>
             (case growth_scaled p x1 y1 of (l, r, t, b) \<Rightarrow>
                8 dvd l \<and> 8 dvd r \<and> 8 dvd t \<and> 8 dvd b \<and>
                width p' = (if width p + l + r > wd_width (worldDimension p)
                            then wd_width (worldDimension p) else width p + l + r) \<and>
                height p' = (if height p + t + b > wd_height (worldDimension p)
                             then wd_height (worldDimension p) else height p + t + b))))"
  using assms(1)
proof (cases rule: setCrust_cases)
  case inside
  from update_cell_fields(6,7) [OF inside(2)] inside(1) assms(2,3) show ?thesis by simp
next
  case (grown p1 index)
  obtain x1 y1 where n: "wd_normalize (worldDimension p) x y = (x1, y1)"
    by (cases "wd_normalize (worldDimension p) x y")
  obtain l r t b where g: "growth_scaled p x1 y1 = (l, r, t, b)"
    by (cases "growth_scaled p x1 y1") auto
  note d = grow_dims [OF grown(2) n g assms(2-5)]
  note u = update_cell_fields(6,7) [OF grown(3)]
  from d u assms(2,3) have b: "width p \<le> width p' \<and> width p' \<le> wd_width (worldDimension p) \<and>
         height p \<le> height p' \<and> height p' \<le> wd_height (worldDimension p)"
    by (simp split: if_splits)
  from d u growth_scaled_dvd [OF g] grown(1) b show ?thesis
    unfolding n g prod.case by simp
qed

lemma E2_index_3_0: "getMapIndex plate_E2 3 0 = (SIZE_MAX, 3, 0)"
  unfolding getMapIndex_def plate_E2_fields
  by (simp add: world4_def rect_getMapIndex_def Rectangle_def size_t_of_int_def int_of_float_def)

lemma s0: "size_t_of_float 0 = 0"
  by (simp add: size_t_of_float_def size_t_of_int_def int_of_float_def)
lemma s1: "sub_size_t 2 1 = 1" "sub_size_t 0 3 = 18446744073709551613" "sub_size_t 3 1 = 2"
   "sub_size_t 0 0 = 0" "sub_size_t 0 1 = 18446744073709551615" "sub_size_t 4 2 = 2"
   "sub_size_t 2 (Suc 0) = Suc 0" "sub_size_t 3 (Suc 0) = 2" "sub_size_t 0 (Suc 0) = 18446744073709551615"
  by (simp_all add: sub_size_t_def)

lemma growth_scaled_cong:
  assumes "left p = 0" "top_p p = 0" "width p = 2" "height p = 2"
    and "wd_width (worldDimension p) = W" "wd_height (worldDimension p) = H"
    and "2 < W" "W < 2 ^ 64" "0 < H"
  shows "growth_scaled p 3 0 = (0, 8, 0, 0)"
  unfolding growth_scaled_def assms(1-6) Let_def s0
  apply (simp only: add_0 add_0_right)
  using assms(7-9) apply (simp add: mask_if_def s1 scale8_def)
  done

lemma E2_growth_scaled: "growth_scaled plate_E2 3 0 = (0, 8, 0, 0)"
  by (rule growth_scaled_cong [where W = 4 and H = 4]) (simp_all add: plate_E2_fields world4_def)

lemma E2_growth: "growth plate_E2 3 0 = (0, 2, 0, 0)"
  unfolding growth_def E2_growth_scaled prod.case plate_E2_fields world4_def Let_def
  by (simp add: s1)

lemma upt_0_2: "[0..<2] = [0, Suc 0]"
  by (simp add: upt_rec)

lemma E2_copy:
  "copy_rows 4 2 0 0 [a, b, c, d] [0, Suc 0] [z, z, z, z, z, z, z, z] =
     Inr [a, b, z, z, c, d, z, z]"
  by (simp add: memcpy_def)

lemma replicate_8: "replicate 8 z = [z, z, z, z, z, z, z, z]"
  by (simp add: numeral_eq_Suc)

lemma plate_E2_grown_fields:
  "width plate_E2_grown = 4" "height plate_E2_grown = 2" "left plate_E2_grown = 0"
  "top_p plate_E2_grown = 0" "worldDimension plate_E2_grown = world4"
  "map_p plate_E2_grown = [1, 1, 0, 0, 1, 1, 0, 0]" "age_map plate_E2_grown = [7, 7, 0, 0, 7, 7, 0, 0]"
  "mass plate_E2_grown = 4"
  by (simp_all add: plate_E2_grown_def plate_E2_fields)

lemma E2_grown_index: "getMapIndex plate_E2_grown 3 0 = (3, 3, 0)"
  unfolding getMapIndex_def plate_E2_grown_fields
  by (simp add: world4_def rect_getMapIndex_def Rectangle_def size_t_of_int_def int_of_float_def)

lemma E2_grow: "grow plate_E2 3 0 1 = Inr (plate_E2_grown, 3)"
proof -
  have n: "wd_normalize world4 3 0 = (3, 0)"
    by (simp add: wd_normalize_def world4_def)
  have e: "plate_E2\<lparr>left := 0, width := 4, top_p := 0, height := 2,
      map_p := [1, 1, 0, 0, 1, 1, 0, 0], age_map := [7, 7, 0, 0, 7, 7, 0, 0],
      segment := [SIZE_MAX, SIZE_MAX, SIZE_MAX, SIZE_MAX, SIZE_MAX, SIZE_MAX, SIZE_MAX, SIZE_MAX],
      seg_data := []\<rparr> = plate_E2_grown"
    by (simp add: plate_E2_grown_def plate_E2_def)
  show ?thesis
    unfolding grow_def plate_E2_fields n prod.case E2_growth Let_def
    by (simp add: upt_0_2 replicate_8 memcpy_def e E2_grown_index plate_E2_grown_fields world4_def)
qed

lemma E2_setCrust:
  "setCrust plate_E2 3 0 1 0 =
     Inr (plate_E2_grown\<lparr>age_map := [7, 7, 0, 0, 7, 7, 0, 0], mass := 5,
            map_p := [1, 1, 0, 1, 1, 1, 0, 0]\<rparr>)"
  unfolding setCrust_def E2_index_3_0 prod.case plate_E2_fields Let_def
  by (simp add: SIZE_MAX_def E2_grow update_cell_def plate_E2_grown_fields)

lemma plate_E2_set_fields:
  "width plate_E2_set = 4" "height plate_E2_set = 2"
  by (simp_all add: plate_E2_set_def plate_E2_grown_fields)

lemma plate_E2_wide_fields:
  "width plate_E2_wide = 2" "height plate_E2_wide = 2" "mass plate_E2_wide = 4"
  "left plate_E2_wide = 0" "top_p plate_E2_wide = 0"
  "map_p plate_E2_wide = [1, 1, 1, 1]" "age_map plate_E2_wide = [7, 7, 7, 7]"
  "segment plate_E2_wide = [SIZE_MAX, SIZE_MAX, SIZE_MAX, SIZE_MAX]" "seg_data plate_E2_wide = []"
  "worldDimension plate_E2_wide = world16"
  by (simp_all add: plate_E2_wide_def plate_E2_fields)

lemma wide_index_3_0: "getMapIndex plate_E2_wide 3 0 = (SIZE_MAX, 3, 0)"
  unfolding getMapIndex_def plate_E2_wide_fields
  by (simp add: world16_def rect_getMapIndex_def Rectangle_def size_t_of_int_def int_of_float_def)

lemma wide_growth_scaled: "growth_scaled plate_E2_wide 3 0 = (0, 8, 0, 0)"
  by (rule growth_scaled_cong [where W = 16 and H = 16])
    (simp_all add: plate_E2_wide_fields world16_def)

lemma wide_growth: "growth plate_E2_wide 3 0 = (0, 8, 0, 0)"
  unfolding growth_def wide_growth_scaled prod.case plate_E2_wide_fields world16_def Let_def
  by simp

lemma replicate_20:
  "replicate 20 z = [z, z, z, z, z, z, z, z, z, z, z, z, z, z, z, z, z, z, z, z]"
  by (simp add: numeral_eq_Suc)

lemma wide_copy:
  "copy_rows 10 2 0 0 [a, b, c, d] [0, Suc 0]
     [z, z, z, z, z, z, z, z, z, z, z, z, z, z, z, z, z, z, z, z] =
     Inr [a, b, z, z, z, z, z, z, z, z, c, d, z, z, z, z, z, z, z, z]"
  by (simp add: memcpy_def)

lemma plate_E2_wide_grown_fields:
  "width plate_E2_wide_grown = 10" "height plate_E2_wide_grown = 2"
  "left plate_E2_wide_grown = 0" "top_p plate_E2_wide_grown = 0"
  "worldDimension plate_E2_wide_grown = world16"
  "map_p plate_E2_wide_grown = [1, 1, 0, 0, 0, 0, 0, 0, 0, 0, 1, 1, 0, 0, 0, 0, 0, 0, 0, 0]"
  "age_map plate_E2_wide_grown = [7, 7, 0, 0, 0, 0, 0, 0, 0, 0, 7, 7, 0, 0, 0, 0, 0, 0, 0, 0]"
  "mass plate_E2_wide_grown = 4"
  by (simp_all add: plate_E2_wide_grown_def plate_E2_wide_fields)

lemma wide_grown_index: "getMapIndex plate_E2_wide_grown 3 0 = (3, 3, 0)"
  unfolding getMapIndex_def plate_E2_wide_grown_fields
  by (simp add: world16_def rect_getMapIndex_def Rectangle_def size_t_of_int_def int_of_float_def)

lemma wide_grow: "grow plate_E2_wide 3 0 1 = Inr (plate_E2_wide_grown, 3)"
proof -
  have n: "wd_normalize world16 3 0 = (3, 0)"
    by (simp add: wd_normalize_def world16_def)
  have e: "plate_E2_wide\<lparr>left := 0, width := 10, top_p := 0, height := 2,
      map_p := [1, 1, 0, 0, 0, 0, 0, 0, 0, 0, 1, 1, 0, 0, 0, 0, 0, 0, 0, 0],
      age_map := [7, 7, 0, 0, 0, 0, 0, 0, 0, 0, 7, 7, 0, 0, 0, 0, 0, 0, 0, 0],
      segment := [SIZE_MAX, SIZE_MAX, SIZE_MAX, SIZE_MAX, SIZE_MAX, SIZE_MAX, SIZE_MAX,
        SIZE_MAX, SIZE_MAX, SIZE_MAX, SIZE_MAX, SIZE_MAX, SIZE_MAX, SIZE_MAX, SIZE_MAX,
        SIZE_MAX, SIZE_MAX, SIZE_MAX, SIZE_MAX, SIZE_MAX],
      seg_data := []\<rparr> = plate_E2_wide_grown"
    by (simp add: plate_E2_wide_grown_def plate_E2_wide_def plate_E2_def replicate_20)
  show ?thesis
    unfolding grow_def plate_E2_wide_fields n prod.case wide_growth Let_def
    by (simp add: upt_0_2 replicate_20 memcpy_def e wide_grown_index
        plate_E2_wide_grown_fields world16_def)
qed

lemma wide_setCrust: "setCrust plate_E2_wide 3 0 1 0 = Inr plate_E2_wide_set"
proof -
  have e: "plate_E2_wide_grown
      \<lparr>age_map := [7, 7, 0, 0, 0, 0, 0, 0, 0, 0, 7, 7, 0, 0, 0, 0, 0, 0, 0, 0], mass := 5,
       map_p := [1, 1, 0, 1, 0, 0, 0, 0, 0, 0, 1, 1, 0, 0, 0, 0, 0, 0, 0, 0]\<rparr> =
      plate_E2_wide_set"
    by (simp add: plate_E2_wide_set_def plate_E2_wide_grown_def)
  show ?thesis
    unfolding setCrust_def wide_index_3_0 prod.case plate_E2_wide_fields Let_def
    by (simp add: SIZE_MAX_def wide_grow update_cell_def plate_E2_wide_grown_fields e)
qed

lemma plate_E2_wide_set_fields:
  "width plate_E2_wide_set = 10" "height plate_E2_wide_set = 2"
  by (simp_all add: plate_E2_wide_set_def plate_E2_wide_grown_fields)

lemma world_sides:
  "wd_width world4 = 4" "wd_height world4 = 4" "wd_width world16 = 16" "wd_height world16 = 16"
  by (simp_all add: world4_def world16_def)

lemma wd_normalize_3_0:
  "wd_normalize world4 3 0 = (3, 0)" "wd_normalize world16 3 0 = (3, 0)"
  by (simp_all add: wd_normalize_def world4_def world16_def)

theorem setCrust_growth_witness:
  "setCrust plate_E2_wide 3 0 1 0 = Inr plate_E2_wide_set \<and>
   growth_scaled plate_E2_wide 3 0 = (0, 8, 0, 0) \<and>
   width plate_E2_wide = 2 \<and> wd_width (worldDimension plate_E2_wide) = 16 \<and>
   width plate_E2_wide_set = 2 + 0 + 8 \<and> height plate_E2_wide_set = 2 \<and>
   setCrust plate_E2 3 0 1 0 = Inr plate_E2_set \<and>
   growth_scaled plate_E2 3 0 = (0, 8, 0, 0) \<and>
   width plate_E2 = 2 \<and> wd_width (worldDimension plate_E2) = 4 \<and>
   width plate_E2_set = 4 \<and> height plate_E2_set = 2"
proof -
  have run: "setCrust plate_E2 3 0 1 0 = Inr plate_E2_set"
    by (simp only: E2_setCrust plate_E2_set_def)
  have h: "width plate_E2 \<le> wd_width (worldDimension plate_E2)"
    "height plate_E2 \<le> wd_height (worldDimension plate_E2)"
    "wd_width (worldDimension plate_E2) < 2 ^ 64" "wd_height (worldDimension plate_E2) < 2 ^ 64"
    by (simp_all add: plate_E2_fields world4_def)
  have hw: "width plate_E2_wide \<le> wd_width (worldDimension plate_E2_wide)"
    "height plate_E2_wide \<le> wd_height (worldDimension plate_E2_wide)"
    "wd_width (worldDimension plate_E2_wide) < 2 ^ 64"
    "wd_height (worldDimension plate_E2_wide) < 2 ^ 64"
    by (simp_all add: plate_E2_wide_fields world16_def)
  from setCrust_growth [OF run h] setCrust_growth [OF wide_setCrust hw]
  show ?thesis
    unfolding E2_index_3_0 wide_index_3_0 plate_E2_fields plate_E2_wide_fields
      wd_normalize_3_0 E2_growth_scaled wide_growth_scaled fst_conv prod.case world_sides
    by (simp add: run wide_setCrust SIZE_MAX_def)
qed

text \<open>
  C7, as stated, fails: in the 4 by 4 world the 2 by 2 plate \<open>plate_E2\<close> grows to a width
  of 4 in \<open>setCrust(3, 0, 1, 0)\<close>, that is by 2 cells.
\<close>

theorem setCrust_growth_counterexample:
  "setCrust plate_E2 3 0 1 0 = Inr plate_E2_set \<and>
   width plate_E2 = 2 \<and> width plate_E2_set = 4 \<and>
   \<not> 8 dvd (width plate_E2_set - width plate_E2)"
  by (simp add: E2_setCrust plate_E2_set_def [symmetric] plate_E2_set_fields plate_E2_fields)

subsection \<open>Accretion by collision\<close>

lemma getMapIndex_cong:
  assumes "left p1 = left p" and "top_p p1 = top_p p" and "width p1 = width p"
    and "height p1 = height p" and "worldDimension p1 = worldDimension p"
  shows "getMapIndex p1 x y = getMapIndex p x y"
  by (simp add: getMapIndex_def assms)

lemma addCrustByCollision_cases:
  assumes "addCrustByCollision p x y z t c = Inr p'"
  obtains cr p1 where "getCrust p x y = Inr cr" and "setCrust p x y (cr + z) t = Inr p1"
    and "fst (getMapIndex p1 x y) < length (segment p1)" and "c < length (seg_data p1)"
    and "p' = p1\<lparr>segment := (segment p1)[fst (getMapIndex p1 x y) := c],
                   seg_data := (seg_data p1)[c :=
                     enlarge_to_contain ((seg_data p1 ! c)\<lparr>area := area (seg_data p1 ! c) + 1\<rparr>)
                       (fst (snd (getMapIndex p1 x y))) (snd (snd (getMapIndex p1 x y)))]\<rparr>"
proof -
  from assms obtain cr where cr: "getCrust p x y = Inr cr"
    unfolding addCrustByCollision_def by (cases "getCrust p x y") simp_all
  with assms obtain p1 where p1: "setCrust p x y (cr + z) t = Inr p1"
    unfolding addCrustByCollision_def by (cases "setCrust p x y (cr + z) t") simp_all
  obtain index lx ly where g: "getMapIndex p1 x y = (index, lx, ly)"
    by (cases "getMapIndex p1 x y")
  from assms have "index < length (segment p1) \<and> c < length (seg_data p1) \<and>
      p' = p1\<lparr>segment := (segment p1)[index := c],
                   seg_data := (seg_data p1)[c :=
                     enlarge_to_contain ((seg_data p1 ! c)\<lparr>area := area (seg_data p1 ! c) + 1\<rparr>)
                       lx ly]\<rparr>"
    unfolding addCrustByCollision_def cr p1 g sum.case prod.case Let_def
    by (simp split: if_splits)
  with that [OF cr p1] g show ?thesis by simp
qed

lemma enlarge_to_contain_box:
  "area (enlarge_to_contain s x y) = area s \<and>
   getLeft (enlarge_to_contain s x y) \<le> x \<and> x \<le> getRight (enlarge_to_contain s x y) \<and>
   getTop (enlarge_to_contain s x y) \<le> y \<and> y \<le> getBottom (enlarge_to_contain s x y) \<and>
   getLeft (enlarge_to_contain s x y) \<le> getLeft s \<and>
   getRight s \<le> getRight (enlarge_to_contain s x y) \<and>
   getTop (enlarge_to_contain s x y) \<le> getTop s \<and>
   getBottom s \<le> getBottom (enlarge_to_contain s x y)"
  by (simp add: enlarge_to_contain_def getLeft_def getRight_def getTop_def getBottom_def)

lemma count_list_update_le: "count_list (xs[i := c]) c \<le> Suc (count_list xs c)"
proof (induction xs arbitrary: i)
  case Nil
  then show ?case by simp
next
  case (Cons a xs)
  show ?case
  proof (cases i)
    case 0
    then show ?thesis by simp
  next
    case (Suc j)
    with Cons.IH [of j] show ?thesis by simp
  qed
qed

lemma setCrust_inside:
  assumes "setCrust p x y z t = Inr p1"
    and "fst (getMapIndex p x y) < width p * height p"
  shows "update_cell p (fst (getMapIndex p x y)) (if z < 0 then 0 else z) t = Inr p1"
  using assms(1)
proof (cases rule: setCrust_cases)
  case inside
  then show ?thesis by simp
next
  case (grown p2 index)
  with assms(2) show ?thesis by simp
qed

lemma addCrustByCollision_inside:
  assumes "addCrustByCollision p x y z t c = Inr p'"
    and "fst (getMapIndex p x y) < width p * height p"
  shows "getMapIndex p' x y = getMapIndex p x y \<and>
    width p' = width p \<and> height p' = height p \<and>
    fst (getMapIndex p x y) < length (segment p) \<and> c < length (seg_data p) \<and>
    segment p' = (segment p)[fst (getMapIndex p x y) := c] \<and>
    seg_data p' = (seg_data p)[c :=
           enlarge_to_contain ((seg_data p ! c)\<lparr>area := area (seg_data p ! c) + 1\<rparr>)
             (fst (snd (getMapIndex p x y))) (snd (snd (getMapIndex p x y)))]"
  using assms(1)
proof (cases rule: addCrustByCollision_cases)
  case (1 cr p1)
  note f = update_cell_fields [OF setCrust_inside [OF 1(2) assms(2)]]
  have g: "getMapIndex p1 x y = getMapIndex p x y"
    by (rule getMapIndex_cong) (simp_all add: f)
  have g': "getMapIndex p' x y = getMapIndex p1 x y"
    by (rule getMapIndex_cong) (simp_all add: 1(5))
  from 1(3,4) show ?thesis
    unfolding g' g by (simp add: 1(5) f g)
qed

lemma addCrustByCollision_inside_eval:
  assumes g: "getMapIndex p x y = (index, lx, ly)"
    and i: "index < width p * height p" "index < SIZE_MAX" "index < length (map_p p)"
      "index < length (age_map p)" "index < length (segment p)" "c < length (seg_data p)"
    and z: "0 \<le> map_p p ! index + z"
    and u: "update_cell p index (map_p p ! index + z) t = Inr p1"
  shows "addCrustByCollision p x y z t c =
     Inr (p1\<lparr>segment := (segment p)[index := c],
            seg_data := (seg_data p)[c :=
              enlarge_to_contain ((seg_data p ! c)\<lparr>area := area (seg_data p ! c) + 1\<rparr>) lx ly]\<rparr>)"
proof -
  have c: "getCrust p x y = Inr (map_p p ! index)"
    unfolding getCrust_def g using i by simp
  have s: "setCrust p x y (map_p p ! index + z) t = Inr p1"
    unfolding setCrust_def g Let_def using i z u by simp
  note f = update_cell_fields [OF u]
  have g1: "getMapIndex p1 x y = (index, lx, ly)"
    using getMapIndex_cong [of p1 p x y] f g by simp
  show ?thesis
    unfolding addCrustByCollision_def c s g1 sum.case prod.case Let_def
    using i f by simp
qed

lemma plate_seg_fields:
  "width plate_seg = 2" "height plate_seg = 2" "left plate_seg = 0" "top_p plate_seg = 0"
  "worldDimension plate_seg = world4" "map_p plate_seg = [1, 1, 1, 1]"
  "age_map plate_seg = [7, 7, 7, 7]" "mass plate_seg = 4"
  "segment plate_seg = [0, SIZE_MAX, SIZE_MAX, SIZE_MAX]" "seg_data plate_seg = [seg0]"
  by (simp_all add: plate_seg_def plate_E2_fields)

lemma plate_seg1_fields:
  "width plate_seg1 = 2" "height plate_seg1 = 2" "left plate_seg1 = 0" "top_p plate_seg1 = 0"
  "worldDimension plate_seg1 = world4" "map_p plate_seg1 = [2, 1, 1, 1]"
  "age_map plate_seg1 = [5, 7, 7, 7]" "mass plate_seg1 = 5"
  "segment plate_seg1 = [0, SIZE_MAX, SIZE_MAX, SIZE_MAX]" "seg_data plate_seg1 = [seg0\<lparr>area := 2\<rparr>]"
  by (simp_all add: plate_seg1_def plate_seg_fields)

lemma plate_seg2_fields:
  "segment plate_seg2 = [0, SIZE_MAX, SIZE_MAX, SIZE_MAX]" "seg_data plate_seg2 = [seg0\<lparr>area := 3\<rparr>]"
  by (simp_all add: plate_seg2_def plate_seg_fields)

lemma seg_index: "getMapIndex plate_seg 0 0 = (0, 0, 0)" "getMapIndex plate_seg1 0 0 = (0, 0, 0)"
  unfolding getMapIndex_def plate_seg_fields plate_seg1_fields
  by (simp_all add: world4_def rect_getMapIndex_def Rectangle_def size_t_of_int_def int_of_float_def)

lemma size_t_of_float_17_3: "size_t_of_float (17 / 3) = 5" "size_t_of_float 5 = 5"
  by (simp_all add: size_t_of_float_def size_t_of_int_def int_of_float_def)

lemma seg_update1: "update_cell plate_seg 0 2 5 = Inr (plate_seg\<lparr>age_map := [5, 7, 7, 7], mass := 5, map_p := [2, 1, 1, 1]\<rparr>)"
  unfolding update_cell_def plate_seg_fields Let_def
  by (simp add: size_t_of_float_17_3)

lemma seg_update2: "update_cell plate_seg1 0 3 5 = Inr (plate_seg1\<lparr>age_map := [5, 7, 7, 7], mass := 6, map_p := [3, 1, 1, 1]\<rparr>)"
  unfolding update_cell_def plate_seg1_fields Let_def
  by (simp add: size_t_of_float_17_3)

lemma SIZE_MAX_pos: "0 < SIZE_MAX"
  by (simp add: SIZE_MAX_def)

lemma seg0_enlarge: "enlarge_to_contain (seg0\<lparr>area := n\<rparr>) 0 0 = seg0\<lparr>area := n\<rparr>"
  by (simp add: enlarge_to_contain_def seg0_def Rectangle_def)

lemma seg_run1: "addCrustByCollision plate_seg 0 0 1 5 0 = Inr plate_seg1"
proof -
  have e: "plate_seg\<lparr>age_map := [5, 7, 7, 7], mass := 5, map_p := [2, 1, 1, 1],
      segment := [0, SIZE_MAX, SIZE_MAX, SIZE_MAX], seg_data := [seg0\<lparr>area := 2\<rparr>]\<rparr> = plate_seg1"
    by (simp add: plate_seg1_def plate_seg_def)
  have a: "seg0\<lparr>area := Suc (area seg0)\<rparr> = seg0\<lparr>area := 2\<rparr>" by (simp add: seg0_def)
  from addCrustByCollision_inside_eval [OF seg_index(1), of 0 1 5 "plate_seg\<lparr>age_map := [5, 7, 7, 7], mass := 5, map_p := [2, 1, 1, 1]\<rparr>"]
  show ?thesis
    unfolding plate_seg_fields
    by (simp add: SIZE_MAX_pos seg_update1 a seg0_enlarge e)
qed

lemma seg_run2: "addCrustByCollision plate_seg1 0 0 1 5 0 = Inr plate_seg2"
proof -
  have e: "plate_seg1\<lparr>age_map := [5, 7, 7, 7], mass := 6, map_p := [3, 1, 1, 1],
      segment := [0, SIZE_MAX, SIZE_MAX, SIZE_MAX], seg_data := [seg0\<lparr>area := 3\<rparr>]\<rparr> = plate_seg2"
    by (simp add: plate_seg2_def plate_seg1_def plate_seg_def)
  have a: "seg0\<lparr>area := 3\<rparr> = seg0\<lparr>area := 3\<rparr>" by simp
  from addCrustByCollision_inside_eval [OF seg_index(2), of 0 1 5 "plate_seg1\<lparr>age_map := [5, 7, 7, 7], mass := 6, map_p := [3, 1, 1, 1]\<rparr>"]
  show ?thesis
    unfolding plate_seg1_fields
    by (simp add: SIZE_MAX_pos seg_update2 seg0_enlarge e)
qed

text \<open>
  C10. A call \<open>addCrustByCollision(x, y, z, t, continentId)\<close> on a cell inside the plate
  adds exactly 1 to the recorded area of the continent, assigns the cell to it and
  enlarges its bounding box to contain the cell. A second call on the same cell adds 1
  again although the cells assigned to the continent stay the same: starting from a
  recorded area that is at least the number of cells assigned, the recorded area after
  the two calls exceeds the number of cells assigned to the continent.
\<close>

theorem addCrustByCollision_area:
  assumes "addCrustByCollision p x y z t c = Inr p'"
    and "fst (getMapIndex p x y) < width p * height p"
    and "addCrustByCollision p' x y z' t' c = Inr p''"
    and "count_list (segment p) c \<le> area (seg_data p ! c)"
  shows "area (seg_data p' ! c) = area (seg_data p ! c) + 1 \<and>
         segment p' ! fst (getMapIndex p x y) = c \<and>
         getLeft (seg_data p' ! c) \<le> fst (snd (getMapIndex p x y)) \<and>
         fst (snd (getMapIndex p x y)) \<le> getRight (seg_data p' ! c) \<and>
         getTop (seg_data p' ! c) \<le> snd (snd (getMapIndex p x y)) \<and>
         snd (snd (getMapIndex p x y)) \<le> getBottom (seg_data p' ! c) \<and>
         getLeft (seg_data p' ! c) \<le> getLeft (seg_data p ! c) \<and>
         getRight (seg_data p ! c) \<le> getRight (seg_data p' ! c) \<and>
         getTop (seg_data p' ! c) \<le> getTop (seg_data p ! c) \<and>
         getBottom (seg_data p ! c) \<le> getBottom (seg_data p' ! c) \<and>
         area (seg_data p'' ! c) = area (seg_data p ! c) + 2 \<and>
         segment p'' = segment p' \<and>
         count_list (segment p'') c < area (seg_data p'' ! c)"
proof -
  let ?i = "fst (getMapIndex p x y)"
  let ?lx = "fst (snd (getMapIndex p x y))"
  let ?ly = "snd (snd (getMapIndex p x y))"
  let ?s = "(seg_data p ! c)\<lparr>area := area (seg_data p ! c) + 1\<rparr>"
  note a = addCrustByCollision_inside [OF assms(1,2)]
  from a have g: "getMapIndex p' x y = getMapIndex p x y"
    and d: "width p' = width p" "height p' = height p"
    and l: "?i < length (segment p)" "c < length (seg_data p)"
    and s: "segment p' = (segment p)[?i := c]"
    and sd: "seg_data p' = (seg_data p)[c := enlarge_to_contain ?s ?lx ?ly]"
    by simp_all
  from assms(2) g d have in': "fst (getMapIndex p' x y) < width p' * height p'" by simp
  note b = addCrustByCollision_inside [OF assms(3) in']
  let ?s' = "(seg_data p' ! c)\<lparr>area := area (seg_data p' ! c) + 1\<rparr>"
  from b g have s': "segment p'' = (segment p')[?i := c]"
    and sd': "seg_data p'' = (seg_data p')[c := enlarge_to_contain ?s' ?lx ?ly]"
    and l': "c < length (seg_data p')"
    by simp_all
  have e1: "seg_data p' ! c = enlarge_to_contain ?s ?lx ?ly"
    using sd l by simp
  have e2: "seg_data p'' ! c = enlarge_to_contain ?s' ?lx ?ly"
    using sd' l' by simp
  note box = enlarge_to_contain_box [of ?s ?lx ?ly]
  have a1: "area (seg_data p' ! c) = area (seg_data p ! c) + 1"
    using box e1 by simp
  have a2: "area (seg_data p'' ! c) = area (seg_data p ! c) + 2"
    using enlarge_to_contain_box [of ?s' ?lx ?ly] e2 a1 by simp
  have same: "segment p'' = segment p'"
    unfolding s' s by simp
  have "count_list (segment p'') c \<le> Suc (count_list (segment p) c)"
    unfolding same s by (rule count_list_update_le)
  with assms(4) a2 have cnt: "count_list (segment p'') c < area (seg_data p'' ! c)"
    by simp
  have cell: "segment p' ! ?i = c"
    using s l by simp
  have bx: "getLeft (seg_data p' ! c) \<le> ?lx \<and> ?lx \<le> getRight (seg_data p' ! c) \<and>
         getTop (seg_data p' ! c) \<le> ?ly \<and> ?ly \<le> getBottom (seg_data p' ! c) \<and>
         getLeft (seg_data p' ! c) \<le> getLeft (seg_data p ! c) \<and>
         getRight (seg_data p ! c) \<le> getRight (seg_data p' ! c) \<and>
         getTop (seg_data p' ! c) \<le> getTop (seg_data p ! c) \<and>
         getBottom (seg_data p ! c) \<le> getBottom (seg_data p' ! c)"
    using box unfolding e1 by (simp add: getLeft_def getRight_def getTop_def getBottom_def)
  from a1 cell bx a2 same cnt show ?thesis by simp
qed

theorem addCrustByCollision_area_witness:
  "addCrustByCollision plate_seg 0 0 1 5 0 = Inr plate_seg1 \<and>
   fst (getMapIndex plate_seg 0 0) < width plate_seg * height plate_seg \<and>
   addCrustByCollision plate_seg1 0 0 1 5 0 = Inr plate_seg2 \<and>
   count_list (segment plate_seg) 0 \<le> area (seg_data plate_seg ! 0) \<and>
   area (seg_data plate_seg ! 0) = 1 \<and>
   area (seg_data plate_seg1 ! 0) = 2 \<and>
   area (seg_data plate_seg2 ! 0) = 3 \<and>
   count_list (segment plate_seg2) 0 = 1 \<and>
   count_list (segment plate_seg2) 0 < area (seg_data plate_seg2 ! 0)"
proof -
  have i: "fst (getMapIndex plate_seg 0 0) < width plate_seg * height plate_seg"
    by (simp add: seg_index plate_seg_fields)
  have c: "count_list (segment plate_seg) 0 \<le> area (seg_data plate_seg ! 0)"
    by (simp add: plate_seg_fields seg0_def SIZE_MAX_def)
  from addCrustByCollision_area [OF seg_run1 i seg_run2 c] seg_run1 seg_run2 i c
  show ?thesis
    by (simp add: plate_seg_fields plate_seg1_fields plate_seg2_fields seg0_def SIZE_MAX_def)
qed

subsection \<open>Erosion\<close>

lemma length_add_at [simp]: "length (add_at xs i v) = length xs"
  by (simp add: add_at_def)












lemma length_level_neighbours [simp]:
  "length (level_neighbours tmp index nb diff crust min_diff diff_sum) = length tmp"
  by (simp add: level_neighbours_def Let_def split: prod.splits)

lemma length_flatten_to_neighbours [simp]:
  "length (flatten_to_neighbours tmp index nb diff crust min_diff diff_sum) = length tmp"
  by (simp add: flatten_to_neighbours_def Let_def split: prod.splits)







lemma calculateCrust_cong:
  assumes "map_p p1 = map_p p" and "width p1 = width p" and "height p1 = height p"
    and "worldDimension p1 = worldDimension p"
  shows "calculateCrust p1 x y index = calculateCrust p x y index"
  unfolding calculateCrust_def neighbour_indices_def xMod_def yMod_def assms ..














lemma nonneg_take: "nonneg xs \<Longrightarrow> nonneg (take n xs)"
  unfolding nonneg_def by (meson in_set_takeD)




lemma wrap_pred:
  fixes x M :: nat
  assumes "0 < x" "x < M" "1 < M"
  shows "(x + M - 1 mod M) mod M = x - 1"
proof -
  from assms have "x + M - 1 mod M = (x - 1) + M" by simp
  moreover from assms have "x - 1 < M" by simp
  ultimately show ?thesis by simp
qed

lemma wrap_zero_pred:
  fixes W M :: nat
  assumes "0 < W" "W < M" "1 < M"
  shows "(((0 + M - 1 mod M) mod M + W) mod M) mod W = W - 1"
proof -
  from assms have a: "(0 + M - 1 mod M) mod M = M - 1" by simp
  from assms have "M - 1 + W = (W - 1) + M" by simp
  then have "(M - 1 + W) mod M = (W - 1 + M) mod M" by (rule arg_cong)
  also have "\<dots> = (W - 1) mod M" by (rule mod_add_self2)
  also from assms have "\<dots> = W - 1" by simp
  finally have "(M - 1 + W) mod M = W - 1" .
  moreover from assms have "W - 1 < W" by simp
  ultimately show ?thesis unfolding a by simp
qed

lemma wrap_add:
  fixes x W M :: nat
  assumes "x + W < M" "x < W"
  shows "((x + W) mod M) mod W = x"
  using assms by simp

lemma xMod_pred:
  assumes "0 < x" "x \<le> wd_width (worldDimension p)" "wd_width (worldDimension p) < 2 ^ 63"
  shows "xMod p (sub_size_t x 1) = x - 1"
proof -
  let ?W = "wd_width (worldDimension p)"
  from assms have x: "x < 2 ^ 64" "1 < (2::nat) ^ 64" by simp_all
  have s: "sub_size_t x 1 = x - 1"
    unfolding sub_size_t_def using wrap_pred [OF assms(1) x] .
  from assms have "x - 1 + ?W < 2 ^ 64" "x - 1 < ?W" by simp_all
  then show ?thesis unfolding xMod_def s by (rule wrap_add)
qed

lemma xMod_wrap_left:
  assumes "0 < wd_width (worldDimension p)" "wd_width (worldDimension p) < 2 ^ 63"
  shows "xMod p (sub_size_t 0 1) = wd_width (worldDimension p) - 1"
proof -
  from assms have x: "wd_width (worldDimension p) < 2 ^ 64" "1 < (2::nat) ^ 64" by simp_all
  show ?thesis unfolding xMod_def sub_size_t_def
    using wrap_zero_pred [OF assms(1) x] .
qed

lemma xMod_succ:
  assumes "x < wd_width (worldDimension p)" "wd_width (worldDimension p) < 2 ^ 63"
  shows "xMod p (x + 1) = (if x + 1 = wd_width (worldDimension p) then 0 else x + 1)"
proof (cases "x + 1 = wd_width (worldDimension p)")
  case True
  from assms have "wd_width (worldDimension p) + wd_width (worldDimension p) < 2 ^ 64" by simp
  then have "(wd_width (worldDimension p) + wd_width (worldDimension p)) mod 2 ^ 64 mod
      wd_width (worldDimension p) = 0"
    by simp
  with True show ?thesis unfolding xMod_def by simp
next
  case False
  from assms False have "x + 1 + wd_width (worldDimension p) < 2 ^ 64"
    "x + 1 < wd_width (worldDimension p)" by simp_all
  then have "(x + 1 + wd_width (worldDimension p)) mod 2 ^ 64 mod
      wd_width (worldDimension p) = x + 1"
    by (rule wrap_add)
  with False show ?thesis unfolding xMod_def by simp
qed

lemma yMod_pred:
  assumes "0 < y" "y \<le> wd_height (worldDimension p)" "wd_height (worldDimension p) < 2 ^ 63"
  shows "yMod p (sub_size_t y 1) = y - 1"
proof -
  let ?H = "wd_height (worldDimension p)"
  from assms have y: "y < 2 ^ 64" "1 < (2::nat) ^ 64" by simp_all
  have s: "sub_size_t y 1 = y - 1"
    unfolding sub_size_t_def using wrap_pred [OF assms(1) y] .
  from assms have "y - 1 + ?H < 2 ^ 64" "y - 1 < ?H" by simp_all
  then show ?thesis unfolding yMod_def s by (rule wrap_add)
qed

lemma yMod_wrap_top:
  assumes "0 < wd_height (worldDimension p)" "wd_height (worldDimension p) < 2 ^ 63"
  shows "yMod p (sub_size_t 0 1) = wd_height (worldDimension p) - 1"
proof -
  from assms have y: "wd_height (worldDimension p) < 2 ^ 64" "1 < (2::nat) ^ 64" by simp_all
  show ?thesis unfolding yMod_def sub_size_t_def
    using wrap_zero_pred [OF assms(1) y] .
qed

lemma yMod_succ:
  assumes "y < wd_height (worldDimension p)" "wd_height (worldDimension p) < 2 ^ 63"
  shows "yMod p (y + 1) = (if y + 1 = wd_height (worldDimension p) then 0 else y + 1)"
proof (cases "y + 1 = wd_height (worldDimension p)")
  case True
  from assms have "wd_height (worldDimension p) + wd_height (worldDimension p) < 2 ^ 64" by simp
  then have "(wd_height (worldDimension p) + wd_height (worldDimension p)) mod 2 ^ 64 mod
      wd_height (worldDimension p) = 0"
    by simp
  with True show ?thesis unfolding yMod_def by simp
next
  case False
  from assms False have "y + 1 + wd_height (worldDimension p) < 2 ^ 64"
    "y + 1 < wd_height (worldDimension p)" by simp_all
  then have "(y + 1 + wd_height (worldDimension p)) mod 2 ^ 64 mod
      wd_height (worldDimension p) = y + 1"
    by (rule wrap_add)
  with False show ?thesis unfolding yMod_def by simp
qed

lemma sub_size_t_1:
  assumes "0 < a" "a < 2 ^ 63"
  shows "sub_size_t a 1 = a - 1"
proof -
  from assms have x: "a < 2 ^ 64" "1 < (2::nat) ^ 64" by simp_all
  show ?thesis unfolding sub_size_t_def using wrap_pred [OF assms(1) x] .
qed

lemma cell_index_less:
  fixes a b w h :: nat
  assumes "a < w" "b < h"
  shows "b * w + a < w * h"
proof -
  from assms have "b * w + a < b * w + w" by simp
  also have "\<dots> = (b + 1) * w" by simp
  also from assms(2) have "\<dots> \<le> h * w" by (intro mult_le_mono1) simp
  finally show ?thesis by (simp add: mult.commute)
qed

lemma neighbour_offsets_range:
  assumes x: "x < width p" and y: "y < height p"
    and w: "width p \<le> wd_width (worldDimension p)"
    and h: "height p \<le> wd_height (worldDimension p)"
    and W: "wd_width (worldDimension p) < 2 ^ 63"
    and H: "wd_height (worldDimension p) < 2 ^ 63"
  shows "(if x > 0 \<or> width p = wd_width (worldDimension p)
          then xMod p (sub_size_t x 1) else 0) < width p"
    and "(if x < sub_size_t (width p) 1 \<or> width p = wd_width (worldDimension p)
          then xMod p (x + 1) else 0) < width p"
    and "(if y > 0 \<or> height p = wd_height (worldDimension p)
          then yMod p (sub_size_t y 1) else 0) < height p"
    and "(if y < sub_size_t (height p) 1 \<or> height p = wd_height (worldDimension p)
          then yMod p (y + 1) else 0) < height p"
proof -
  let ?W = "wd_width (worldDimension p)" and ?H = "wd_height (worldDimension p)"
  from x w have xW: "x < ?W" "x \<le> ?W" "0 < ?W" by simp_all
  from y h have yH: "y < ?H" "y \<le> ?H" "0 < ?H" by simp_all
  from x w W have sw: "sub_size_t (width p) 1 = width p - 1" by (intro sub_size_t_1) simp_all
  from y h H have sh: "sub_size_t (height p) 1 = height p - 1" by (intro sub_size_t_1) simp_all
  show "(if x > 0 \<or> width p = ?W then xMod p (sub_size_t x 1) else 0) < width p"
  proof (cases "x > 0")
    case True
    from xMod_pred [OF True xW(2) W] True x show ?thesis by simp
  next
    case False
    then have x0: "x = 0" by simp
    show ?thesis
    proof (cases "width p = ?W")
      case True
      from xMod_wrap_left [OF xW(3) W] True x0 xW(3) show ?thesis by simp
    next
      case False
      with x0 x show ?thesis by simp
    qed
  qed
  show "(if x < sub_size_t (width p) 1 \<or> width p = ?W then xMod p (x + 1) else 0) < width p"
    unfolding sw xMod_succ [OF xW(1) W] using x by auto
  show "(if y > 0 \<or> height p = ?H then yMod p (sub_size_t y 1) else 0) < height p"
  proof (cases "y > 0")
    case True
    from yMod_pred [OF True yH(2) H] True y show ?thesis by simp
  next
    case False
    then have y0: "y = 0" by simp
    show ?thesis
    proof (cases "height p = ?H")
      case True
      from yMod_wrap_top [OF yH(3) H] True y0 yH(3) show ?thesis by simp
    next
      case False
      with y0 y show ?thesis by simp
    qed
  qed
  show "(if y < sub_size_t (height p) 1 \<or> height p = ?H then yMod p (y + 1) else 0) < height p"
    unfolding sh yMod_succ [OF yH(1) H] using y by auto
qed

lemma neighbour_indices_range:
  assumes x: "x < width p" and y: "y < height p"
    and w: "width p \<le> wd_width (worldDimension p)"
    and h: "height p \<le> wd_height (worldDimension p)"
    and W: "wd_width (worldDimension p) < 2 ^ 63"
    and H: "wd_height (worldDimension p) < 2 ^ 63"
    and nb: "neighbour_indices p x y = (masks, (w', e', n', s'))"
  shows "w' < width p * height p \<and> e' < width p * height p \<and>
         n' < width p * height p \<and> s' < width p * height p"
proof -
  note r = neighbour_offsets_range [OF x y w h W H]
  from nb have e: 
    "w' = y * width p + (if x > 0 \<or> width p = wd_width (worldDimension p)
          then xMod p (sub_size_t x 1) else 0)"
    "e' = y * width p + (if x < sub_size_t (width p) 1 \<or> width p = wd_width (worldDimension p)
          then xMod p (x + 1) else 0)"
    "n' = (if y > 0 \<or> height p = wd_height (worldDimension p)
          then yMod p (sub_size_t y 1) else 0) * width p + x"
    "s' = (if y < sub_size_t (height p) 1 \<or> height p = wd_height (worldDimension p)
          then yMod p (y + 1) else 0) * width p + x"
    unfolding neighbour_indices_def Let_def by simp_all
  show ?thesis unfolding e
    using cell_index_less [OF r(1) y] cell_index_less [OF r(2) y]
      cell_index_less [OF x r(3)] cell_index_less [OF x r(4)]
    by simp
qed

lemma single_peak_crust:
  assumes sp: "single_peak m c" and k: "k < length m" and i: "i < length m"
  shows "m ! k * bool_real (b \<and> m ! k < m ! i) = 0"
proof (cases "k = c")
  case True
  show ?thesis
  proof (cases "i = c")
    case True
    with \<open>k = c\<close> show ?thesis by (simp add: bool_real_def)
  next
    case False
    with sp i have "m ! i = 0" unfolding single_peak_def by auto
    moreover from sp k True have "0 \<le> m ! k" unfolding single_peak_def by auto
    ultimately show ?thesis by (simp add: bool_real_def)
  qed
next
  case False
  with sp k have "m ! k = 0" unfolding single_peak_def by auto
  then show ?thesis by simp
qed

lemma calculateCrust_single_peak:
  assumes x: "x < width p" and y: "y < height p"
    and w: "width p \<le> wd_width (worldDimension p)"
    and h: "height p \<le> wd_height (worldDimension p)"
    and W: "wd_width (worldDimension p) < 2 ^ 63"
    and H: "wd_height (worldDimension p) < 2 ^ 63"
    and len: "length (map_p p) = width p * height p"
    and sp: "single_peak (map_p p) c"
    and i: "index < length (map_p p)"
  shows "calculateCrust p x y index = Inr ((0, 0, 0, 0), snd (neighbour_indices p x y))"
proof -
  obtain cw ce cn cs w' e' n' s' where
    nb: "neighbour_indices p x y = ((cw, ce, cn, cs), (w', e', n', s'))"
    by (metis prod.exhaust)
  from neighbour_indices_range [OF x y w h W H nb] len
  have r: "w' < length (map_p p)" "e' < length (map_p p)" "n' < length (map_p p)"
    "s' < length (map_p p)"
    by simp_all
  show ?thesis
    unfolding calculateCrust_def nb prod.case Let_def snd_conv
      single_peak_crust [OF sp r(1) i] single_peak_crust [OF sp r(2) i]
      single_peak_crust [OF sp r(3) i] single_peak_crust [OF sp r(4) i]
    using r i by simp
qed

lemma in_cells: "(x, y) \<in> set (cells w h) \<longleftrightarrow> x < w \<and> y < h"
  by (force simp: cells_def)

lemma cells_range: "\<forall>(x, y) \<in> set (cells w h). x < w \<and> y < h"
  using in_cells by auto

lemma tops_step_single_peak:
  assumes x: "x < width p" and y: "y < height p"
    and w: "width p \<le> wd_width (worldDimension p)"
    and h: "height p \<le> wd_height (worldDimension p)"
    and W: "wd_width (worldDimension p) < 2 ^ 63"
    and H: "wd_height (worldDimension p) < 2 ^ 63"
    and len: "length (map_p p) = width p * height p"
    and sp: "single_peak (map_p p) c"
  shows "tops_step p lb sources (x, y) = Inr sources"
proof -
  from cell_index_less [OF x y] len have i: "y * width p + x < length (map_p p)" by simp
  show ?thesis
    unfolding tops_step_def prod.case Let_def
      calculateCrust_single_peak [OF x y w h W H len sp i]
    using i by simp
qed

lemma tops_fold_single_peak:
  assumes cs: "\<forall>(x, y) \<in> set cs. x < width p \<and> y < height p"
    and w: "width p \<le> wd_width (worldDimension p)"
    and h: "height p \<le> wd_height (worldDimension p)"
    and W: "wd_width (worldDimension p) < 2 ^ 63"
    and H: "wd_height (worldDimension p) < 2 ^ 63"
    and len: "length (map_p p) = width p * height p"
    and sp: "single_peak (map_p p) c"
  shows "fold_err (tops_step p lb) sources cs = Inr sources"
  using cs
proof (induction cs)
  case Nil
  show ?case by simp
next
  case (Cons a cs)
  obtain x y where a: "a = (x, y)" by (cases a)
  from Cons.prems a have xy: "x < width p" "y < height p" by simp_all
  from Cons.prems have "\<forall>(x, y) \<in> set cs. x < width p \<and> y < height p" by simp
  from Cons.IH [OF this] tops_step_single_peak [OF xy w h W H len sp]
  show ?case unfolding a by simp
qed

lemma fold_err_append:
  "fold_err f s (xs @ ys) =
     (case fold_err f s xs of Inl e \<Rightarrow> Inl e | Inr s' \<Rightarrow> fold_err f s' ys)"
  by (induction xs arbitrary: s) (simp_all split: sum.splits)

lemma noise_fold_closed:
  assumes "k \<le> length tmp"
  shows "fold_err noise_step (tmp, p) [0..<k] =
     Inr (map (\<lambda>i. tmp ! i + (0.1 * tmp ! i -
              0.2 * real (randsource p (rand_pos p + i)) / real rand_max * tmp ! i)) [0..<k] @
          drop k tmp,
          p\<lparr>rand_pos := rand_pos p + k\<rparr>)"
  using assms
proof (induction k)
  case 0
  show ?case by simp
next
  case (Suc k)
  let ?f = "\<lambda>i. tmp ! i + (0.1 * tmp ! i -
              0.2 * real (randsource p (rand_pos p + i)) / real rand_max * tmp ! i)"
  from Suc.prems have k: "k < length tmp" by simp
  then have d: "drop k tmp = tmp ! k # drop (Suc k) tmp"
    by (simp add: Cons_nth_drop_Suc)
  have n: "noise_step (map ?f [0..<k] @ drop k tmp, p\<lparr>rand_pos := rand_pos p + k\<rparr>) k =
      Inr (map ?f [0..<Suc k] @ drop (Suc k) tmp, p\<lparr>rand_pos := rand_pos p + Suc k\<rparr>)"
    unfolding noise_step_def rand_next_def prod.case Let_def d
    using k by (simp add: nth_append list_update_append)
  from Suc.IH k have ih: "fold_err noise_step (tmp, p) [0..<k] =
     Inr (map ?f [0..<k] @ drop k tmp, p\<lparr>rand_pos := rand_pos p + k\<rparr>)"
    by simp
  show ?case
    unfolding upt_Suc_append [OF le0] fold_err_append ih sum.case fold_err.simps n ..
qed

lemma cells_Suc: "cells w (Suc h) = cells w h @ map (\<lambda>x. (x, h)) [0..<w]"
  by (simp add: cells_def)

lemma cells_indices_aux: "map (\<lambda>(x, y). y * w + x) (cells w h) = [0..<h * w]"
proof (induction h)
  case 0
  show ?case by (simp add: cells_def)
next
  case (Suc h)
  have "map (\<lambda>(x, y). y * w + x) (map (\<lambda>x. (x, h)) [0..<w]) = map (\<lambda>x. x + h * w) [0..<w]"
    by (simp add: add.commute)
  also have "\<dots> = [h * w..<w + h * w]"
    by (rule map_add_upt)
  finally have r: "map (\<lambda>(x, y). y * w + x) (map (\<lambda>x. (x, h)) [0..<w]) = [h * w..<h * w + w]"
    by (simp add: add.commute)
  have e: "Suc h * w = h * w + w" by simp
  have "[0..<h * w + w] = [0..<h * w] @ [h * w..<h * w + w]"
    by (rule upt_add_eq_append) simp
  then show ?case
    unfolding cells_Suc map_append Suc.IH r e ..
qed

lemma cells_indices: "map (\<lambda>(x, y). y * w + x) (cells w h) = [0..<w * h]"
  unfolding cells_indices_aux by (simp add: mult.commute)

lemma add_at_append: "add_at (xs @ a # ys) (length xs) v = xs @ (a + v) # ys"
  by (simp add: add_at_def)

lemma fold_add_at_upt:
  assumes "k \<le> length m" and "length tmp = length m"
  shows "fold (\<lambda>i t. add_at t i (m ! i)) [0..<k] tmp =
         map (\<lambda>i. tmp ! i + m ! i) [0..<k] @ drop k tmp"
  using assms(1)
proof (induction k)
  case 0
  show ?case by simp
next
  case (Suc k)
  let ?g = "\<lambda>i. tmp ! i + m ! i"
  from Suc.prems assms(2) have k: "k < length tmp" by simp
  then have d: "drop k tmp = tmp ! k # drop (Suc k) tmp"
    by (simp add: Cons_nth_drop_Suc)
  from Suc.IH Suc.prems have ih:
    "fold (\<lambda>i t. add_at t i (m ! i)) [0..<k] tmp = map ?g [0..<k] @ drop k tmp"
    by simp
  have "fold (\<lambda>i t. add_at t i (m ! i)) [0..<Suc k] tmp =
        add_at (fold (\<lambda>i t. add_at t i (m ! i)) [0..<k] tmp) k (m ! k)"
    by simp
  also have "\<dots> = add_at (map ?g [0..<k] @ tmp ! k # drop (Suc k) tmp) (length (map ?g [0..<k])) (m ! k)"
    unfolding ih d by simp
  also have "\<dots> = map ?g [0..<k] @ (tmp ! k + m ! k) # drop (Suc k) tmp"
    by (rule add_at_append)
  also have "\<dots> = map ?g [0..<Suc k] @ drop (Suc k) tmp"
    by simp
  finally show ?case .
qed

lemma fold_add_at_zero:
  assumes "length m = n"
  shows "fold (\<lambda>i t. add_at t i (m ! i)) [0..<n] (replicate n 0) = m"
proof -
  have "fold (\<lambda>i t. add_at t i (m ! i)) [0..<n] (replicate n 0) =
        map (\<lambda>i. replicate n 0 ! i + m ! i) [0..<n] @ drop n (replicate n 0)"
    using assms by (intro fold_add_at_upt) simp_all
  also have "\<dots> = map (\<lambda>i. m ! i) [0..<n]"
    by simp
  also have "\<dots> = m" unfolding assms [symmetric] by (rule map_nth)
  finally show ?thesis .
qed

lemma redistribute_step_single_peak:
  assumes x: "x < width p" and y: "y < height p"
    and w: "width p \<le> wd_width (worldDimension p)"
    and h: "height p \<le> wd_height (worldDimension p)"
    and W: "wd_width (worldDimension p) < 2 ^ 63"
    and H: "wd_height (worldDimension p) < 2 ^ 63"
    and len: "length (map_p p) = width p * height p"
    and sp: "single_peak (map_p p) c"
    and lt: "length tmp = length (map_p p)"
  shows "redistribute_step lb (p, tmp) (x, y) =
     Inr (p\<lparr>mass := mass p + map_p p ! (y * width p + x),
            cx := cx p + real x * map_p p ! (y * width p + x),
            cy := cy p + real y * map_p p ! (y * width p + x)\<rparr>,
          add_at tmp (y * width p + x) (map_p p ! (y * width p + x)))"
proof -
  let ?i = "y * width p + x"
  let ?p1 = "p\<lparr>mass := mass p + map_p p ! ?i, cx := cx p + real x * map_p p ! ?i,
               cy := cy p + real y * map_p p ! ?i\<rparr>"
  from cell_index_less [OF x y] len have i: "?i < length (map_p p)" by simp
  have "calculateCrust ?p1 x y ?i = calculateCrust p x y ?i"
    by (rule calculateCrust_cong) simp_all
  then have cc: "calculateCrust ?p1 x y ?i = Inr ((0, 0, 0, 0), snd (neighbour_indices p x y))"
    unfolding calculateCrust_single_peak [OF x y w h W H len sp i] .
  obtain w' e' n' s' where nb: "snd (neighbour_indices p x y) = (w', e', n', s')"
    by (metis prod.exhaust)
  have z: "(0::real) + 0 + 0 + 0 = 0" by simp
  from i lt have ok: "?i < length (map_p p) \<and> ?i < length tmp" by simp
  show ?thesis
    unfolding redistribute_step_def prod.case Let_def cc nb sum.case z
    by (simp only: ok simp_thms if_False if_True if_cancel)
qed

lemma redistribute_fold_single_peak:
  assumes cs: "\<forall>(x, y) \<in> set cs. x < width p \<and> y < height p"
    and w: "width p \<le> wd_width (worldDimension p)"
    and h: "height p \<le> wd_height (worldDimension p)"
    and W: "wd_width (worldDimension p) < 2 ^ 63"
    and H: "wd_height (worldDimension p) < 2 ^ 63"
    and len: "length (map_p p) = width p * height p"
    and sp: "single_peak (map_p p) c"
    and lt: "length tmp = length (map_p p)"
  shows "fold_err (redistribute_step lb) (p, tmp) cs =
     Inr (p\<lparr>mass := mass p + sum_list (map (\<lambda>(x, y). map_p p ! (y * width p + x)) cs),
            cx := cx p + sum_list (map (\<lambda>(x, y). real x * map_p p ! (y * width p + x)) cs),
            cy := cy p + sum_list (map (\<lambda>(x, y). real y * map_p p ! (y * width p + x)) cs)\<rparr>,
          fold (\<lambda>i t. add_at t i (map_p p ! i)) (map (\<lambda>(x, y). y * width p + x) cs) tmp)"
  using cs w h W H len sp lt
proof (induction cs arbitrary: p tmp)
  case Nil
  show ?case by simp
next
  case (Cons a cs)
  obtain x y where a: "a = (x, y)" by (cases a)
  let ?i = "y * width p + x"
  let ?p1 = "p\<lparr>mass := mass p + map_p p ! ?i, cx := cx p + real x * map_p p ! ?i,
               cy := cy p + real y * map_p p ! ?i\<rparr>"
  let ?t1 = "add_at tmp ?i (map_p p ! ?i)"
  from Cons.prems(1) a have xy: "x < width p" "y < height p" by simp_all
  note st = redistribute_step_single_peak [OF xy Cons.prems(2-8), of lb]
  from Cons.prems(1) have c1: "\<forall>(x, y) \<in> set cs. x < width ?p1 \<and> y < height ?p1" by simp
  from Cons.prems(2-8) have pr: "width ?p1 \<le> wd_width (worldDimension ?p1)"
    "height ?p1 \<le> wd_height (worldDimension ?p1)"
    "wd_width (worldDimension ?p1) < 2 ^ 63" "wd_height (worldDimension ?p1) < 2 ^ 63"
    "length (map_p ?p1) = width ?p1 * height ?p1" "single_peak (map_p ?p1) c"
    "length ?t1 = length (map_p ?p1)"
    by simp_all
  note ih = Cons.IH [OF c1 pr]
  show ?case
    unfolding a fold_err.simps st sum.case ih by (simp add: add.assoc)
qed

lemma noise_factor_nonneg:
  assumes "r \<le> rand_max" and "0 \<le> (v::real)"
  shows "0 \<le> v + (0.1 * v - 0.2 * real r / real rand_max * v)"
proof -
  from assms(1) have "real r \<le> real rand_max" by simp
  moreover have "0 < real rand_max" by (simp add: rand_max_def)
  ultimately have "real r / real rand_max \<le> 1" by (simp add: divide_le_eq)
  then have a: "0.2 * real r / real rand_max \<le> 0.2" by simp
  have "v + (0.1 * v - 0.2 * real r / real rand_max * v) =
        (1.1 - 0.2 * real r / real rand_max) * v"
    by (simp add: algebra_simps)
  moreover from a assms(2) have "0 \<le> (1.1 - 0.2 * real r / real rand_max) * v" by simp
  ultimately show ?thesis by simp
qed

lemma length_noised: "length (noised p) = width p * height p"
  by (simp add: noised_def)

lemma single_peak_noised:
  assumes sp: "single_peak (map_p p) c" and len: "length (map_p p) = width p * height p"
    and rs: "\<forall>k. randsource p k \<le> rand_max"
  shows "single_peak (noised p) c"
  unfolding single_peak_def
proof (intro allI impI)
  fix k assume "k < length (noised p)"
  then have k: "k < width p * height p" by (simp add: length_noised)
  then have n: "noised p ! k = map_p p ! k + (0.1 * map_p p ! k -
            0.2 * real (randsource p (rand_pos p + k)) / real rand_max * map_p p ! k)"
    by (simp add: noised_def)
  show "if k = c then 0 \<le> noised p ! k else noised p ! k = 0"
  proof (cases "k = c")
    case True
    from sp k len True have "0 \<le> map_p p ! k" unfolding single_peak_def by auto
    from noise_factor_nonneg [OF spec [OF rs] this] True show ?thesis unfolding n by simp
  next
    case False
    from sp k len False have "map_p p ! k = 0" unfolding single_peak_def by auto
    with False show ?thesis unfolding n by simp
  qed
qed

lemma erode_single_peak:
  assumes w: "width p \<le> wd_width (worldDimension p)"
    and h: "height p \<le> wd_height (worldDimension p)"
    and W: "wd_width (worldDimension p) < 2 ^ 63"
    and H: "wd_height (worldDimension p) < 2 ^ 63"
    and len: "length (map_p p) = width p * height p"
    and sp: "single_peak (map_p p) c"
    and rs: "\<forall>k. randsource p k \<le> rand_max"
    and M: "M = sum_list (noised p)"
    and X: "X = sum_list (map (\<lambda>(x, y). real x * noised p ! (y * width p + x))
                    (cells (width p) (height p)))"
    and Y: "Y = sum_list (map (\<lambda>(x, y). real y * noised p ! (y * width p + x))
                    (cells (width p) (height p)))"
  shows "erode p lb =
     Inr (p\<lparr>rand_pos := rand_pos p + width p * height p, map_p := noised p,
            mass := M, cx := (if M > 0 then X / M else X),
            cy := (if M > 0 then Y / M else Y)\<rparr>)"
proof -
  let ?area = "width p * height p"
  let ?p1 = "p\<lparr>rand_pos := rand_pos p + ?area\<rparr>"
  let ?q = "?p1\<lparr>map_p := noised p, mass := 0, cx := 0, cy := 0\<rparr>"
  have cs: "\<forall>(x, y) \<in> set (cells (width p) (height p)). x < width p \<and> y < height p"
    by (rule cells_range)
  have e1: "memcpy (replicate ?area 0) 0 (map_p p) 0 ?area = Inr (map_p p)"
    using len by (simp add: memcpy_def)
  have e2: "fold_err (tops_step p lb) [] (cells (width p) (height p)) = Inr []"
    by (rule tops_fold_single_peak [OF cs w h W H len sp])
  have e3: "erode_flow p lb [] [] {} (map_p p) = Inr (map_p p)"
    by simp
  have "fold_err noise_step (map_p p, p) [0..<?area] =
      Inr (noised p @ drop ?area (map_p p), ?p1)"
    unfolding noised_def by (rule noise_fold_closed) (simp add: len)
  then have e4: "fold_err noise_step (map_p p, p) [0..<?area] = Inr (noised p, ?p1)"
    using len by simp
  have e5: "memcpy (map_p ?p1) 0 (noised p) 0 ?area = Inr (noised p)"
    using len by (simp add: memcpy_def length_noised)
  have e6: "memcpy (noised p) 0 (replicate ?area 0) 0 ?area = Inr (replicate ?area 0)"
    by (simp add: memcpy_def length_noised)
  have cq: "\<forall>(x, y) \<in> set (cells (width p) (height p)). x < width ?q \<and> y < height ?q"
    using cells_range [of "width p" "height p"] by simp
  have q: "width ?q \<le> wd_width (worldDimension ?q)" "height ?q \<le> wd_height (worldDimension ?q)"
    "wd_width (worldDimension ?q) < 2 ^ 63" "wd_height (worldDimension ?q) < 2 ^ 63"
    "length (map_p ?q) = width ?q * height ?q" "single_peak (map_p ?q) c"
    "length (replicate ?area (0::real)) = length (map_p ?q)"
    using w h W H single_peak_noised [OF sp len rs] by (simp_all add: length_noised)
  note f = redistribute_fold_single_peak [OF cq q, of lb]
  have m: "map_p ?q = noised p" "width ?q = width p" "mass ?q = 0" "cx ?q = 0" "cy ?q = 0"
    by simp_all
  have "map (\<lambda>(x, y). noised p ! (y * width p + x)) (cells (width p) (height p)) =
        map ((!) (noised p)) (map (\<lambda>(x, y). y * width p + x) (cells (width p) (height p)))"
    by (simp add: case_prod_unfold)
  also have "\<dots> = map ((!) (noised p)) [0..<length (noised p)]"
    unfolding cells_indices length_noised ..
  also have "\<dots> = noised p" by (rule map_nth)
  finally have s: "map (\<lambda>(x, y). noised p ! (y * width p + x)) (cells (width p) (height p)) =
      noised p" .
  have t: "fold (\<lambda>i t. add_at t i (noised p ! i)) [0..<?area] (replicate ?area 0) = noised p"
    by (rule fold_add_at_zero) (rule length_noised)
  let ?p2 = "?q\<lparr>mass := 0 + M, cx := 0 + X, cy := 0 + Y\<rparr>"
  have e7: "fold_err (redistribute_step lb) (?q, replicate ?area 0) (cells (width p) (height p)) =
     Inr (?p2, noised p)"
    using f unfolding m s cells_indices t M [symmetric] X [symmetric] Y [symmetric] .
  have e8: "memcpy (map_p ?p2) 0 (noised p) 0 ?area = Inr (noised p)"
    by (simp add: memcpy_def length_noised)
  have "erode p lb =
      Inr (if mass ?p2 > 0
           then ?p2\<lparr>map_p := noised p, cx := cx ?p2 / mass ?p2, cy := cy ?p2 / mass ?p2\<rparr>
           else ?p2\<lparr>map_p := noised p\<rparr>)"
    unfolding erode_def Let_def e1 sum.case e2 e3 e4 prod.case e5 e6 e7 e8 ..
  then show ?thesis by simp
qed

lemma upt_0_9: "[0..<9] = [0, 1, 2, 3, 4, 5, 6, 7, 8]"
  by (simp add: upt_rec)

lemma cells_3_3:
  "cells 3 3 = [(0, 0), (1, 0), (2, 0), (0, 1), (1, 1), (2, 1), (0, 2), (1, 2), (2, 2)]"
  by (simp add: cells_def upt_rec)

lemma less_9_cases:
  fixes k :: nat
  assumes "k < 9"
  shows "k = 0 \<or> k = 1 \<or> k = 2 \<or> k = 3 \<or> k = 4 \<or> k = 5 \<or> k = 6 \<or> k = 7 \<or> k = 8"
  using assms by arith

lemma single_peak_E5: "single_peak [0, 0, 0, 0, v, 0, 0, 0, 0] 4 \<longleftrightarrow> 0 \<le> v"
proof
  assume "single_peak [0, 0, 0, 0, v, 0, 0, 0, 0] 4"
  then have "if (4::nat) = 4 then 0 \<le> [0, 0, 0, 0, v, 0, 0, 0, 0] ! 4
             else [0, 0, 0, 0, v, 0, 0, 0, 0] ! 4 = 0"
    unfolding single_peak_def by (elim allE [of _ 4] impE) simp_all
  then show "0 \<le> v" by simp
next
  assume v: "0 \<le> v"
  show "single_peak [0, 0, 0, 0, v, 0, 0, 0, 0] 4"
    unfolding single_peak_def
  proof (intro allI impI)
    fix k assume "k < length [0, 0, 0, 0, v, 0, 0, 0, 0]"
    then have "k < 9" by simp
    from less_9_cases [OF this] v
    show "if k = 4 then 0 \<le> [0, 0, 0, 0, v, 0, 0, 0, 0] ! k
          else [0, 0, 0, 0, v, 0, 0, 0, 0] ! k = 0"
      by (elim disjE) simp_all
  qed
qed

lemma noised_E5:
  assumes "width p = 3" "height p = 3" "map_p p = [0, 0, 0, 0, 10, 0, 0, 0, 0]"
  shows "noised p = [0, 0, 0, 0,
           10 * (11 / 10 - 2 / 10 * real (randsource p (rand_pos p + 4)) / real rand_max),
           0, 0, 0, 0]"
  unfolding noised_def assms by (simp add: upt_0_9 algebra_simps)

lemma erode_E5:
  assumes d: "width p = 3" "height p = 3" "map_p p = [0, 0, 0, 0, 10, 0, 0, 0, 0]"
    and W: "3 \<le> wd_width (worldDimension p)" "wd_width (worldDimension p) < 2 ^ 63"
    and H: "3 \<le> wd_height (worldDimension p)" "wd_height (worldDimension p) < 2 ^ 63"
    and rs: "\<forall>k. randsource p k \<le> rand_max"
    and v: "v = 10 * (11 / 10 - 2 / 10 * real (randsource p (rand_pos p + 4)) / real rand_max)"
  shows "erode p lb =
     Inr (p\<lparr>rand_pos := rand_pos p + 9, map_p := [0, 0, 0, 0, v, 0, 0, 0, 0],
            mass := v, cx := (if v > 0 then v / v else v),
            cy := (if v > 0 then v / v else v)\<rparr>)"
proof -
  note n = noised_E5 [OF d, folded v]
  have g: "width p \<le> wd_width (worldDimension p)" "height p \<le> wd_height (worldDimension p)"
    "length (map_p p) = width p * height p" "single_peak (map_p p) 4"
    using d W H by (simp_all add: single_peak_E5)
  have M: "v = sum_list (noised p)" unfolding n by simp
  have X: "v = sum_list (map (\<lambda>(x, y). real x * noised p ! (y * width p + x))
                    (cells (width p) (height p)))"
    unfolding n d cells_3_3 by simp
  have Y: "v = sum_list (map (\<lambda>(x, y). real y * noised p ! (y * width p + x))
                    (cells (width p) (height p)))"
    unfolding n d cells_3_3 by simp
  from erode_single_peak [OF g(1,2) W(2) H(2) g(3,4) rs M X Y, of lb]
  show ?thesis unfolding n d by simp
qed

lemma noise_range:
  assumes "r \<le> rand_max"
  shows "9 \<le> 10 * (11 / 10 - 2 / 10 * real r / real rand_max) \<and>
         10 * (11 / 10 - 2 / 10 * real r / real rand_max) \<le> (11::real)"
proof -
  from assms have "real r \<le> real rand_max" by simp
  moreover have "0 < real rand_max" by (simp add: rand_max_def)
  ultimately have "real r / real rand_max \<le> 1" "0 \<le> real r / real rand_max"
    by (simp_all add: divide_le_eq)
  then show ?thesis by simp
qed

text \<open>
  C5, as amended. For a 3 by 3 plate with the heights \<open>[0,0,0; 0,10,0; 0,0,0]\<close>, no
  larger than its world, \<open>erode(0)\<close> returns: a neighbour of height 0 counts as invalid in
  \<open>calculateCrust\<close>, so the centre is no top and passes no crust on. Every cell but the
  centre keeps the height 0; the centre is multiplied by the noise factor
  \<open>1.1 - 0.2 * r / max()\<close>, where \<open>r\<close> is the draw of the generator for the centre (the
  fifth of the call), so that its height lies between 9 and 11; and the mass is the
  height of the centre.
\<close>

theorem erode_peak:
  assumes "width p = 3" and "height p = 3" and "map_p p = [0, 0, 0, 0, 10, 0, 0, 0, 0]"
    and "3 \<le> wd_width (worldDimension p)" and "wd_width (worldDimension p) < 2 ^ 63"
    and "3 \<le> wd_height (worldDimension p)" and "wd_height (worldDimension p) < 2 ^ 63"
    and "\<forall>k. randsource p k \<le> rand_max"
  shows "\<exists>p'. erode p 0 = Inr p' \<and>
     map_p p' = [0, 0, 0, 0,
        10 * (11 / 10 - 2 / 10 * real (randsource p (rand_pos p + 4)) / real rand_max),
        0, 0, 0, 0] \<and>
     mass p' = 10 * (11 / 10 - 2 / 10 * real (randsource p (rand_pos p + 4)) / real rand_max) \<and>
     9 \<le> map_p p' ! 4 \<and> map_p p' ! 4 \<le> 11"
proof -
  note e = erode_E5 [OF assms refl, of 0]
  note r = noise_range [OF spec [OF assms(8)], of "rand_pos p + 4"]
  show ?thesis unfolding e using r by simp
qed

lemma plate_E5_fields:
  "width plate_E5 = 3" "height plate_E5 = 3" "map_p plate_E5 = [0, 0, 0, 0, 10, 0, 0, 0, 0]"
  "worldDimension plate_E5 = world8" "randsource plate_E5 = (\<lambda>i. 0)" "rand_pos plate_E5 = 2"
  "mass plate_E5 = 10" "rot_dir plate_E5 = 0" "dx plate_E5 = 0" "dy plate_E5 = 0"
  "vx plate_E5 = 1" "vy plate_E5 = 0" "velocity plate_E5 = 1" "left plate_E5 = 0"
  "top_p plate_E5 = 0" "segment plate_E5 = replicate 9 SIZE_MAX" "seg_data plate_E5 = []"
  "cx plate_E5 = 1" "cy plate_E5 = 1"
  by (simp_all add: plate_E5_def)

lemma plate_E5_dry_fields:
  "width plate_E5_dry = 3" "height plate_E5_dry = 3"
  "map_p plate_E5_dry = [0, 0, 0, 0, 10, 0, 0, 0, 0]"
  "worldDimension plate_E5_dry = world8" "randsource plate_E5_dry = (\<lambda>i. rand_max)"
  by (simp_all add: plate_E5_dry_def plate_E5_fields)

lemma world8_sides: "wd_width world8 = 8" "wd_height world8 = 8"
  by (simp_all add: world8_def)

theorem erode_peak_witness:
  "width plate_E5_dry = 3 \<and> height plate_E5_dry = 3 \<and>
   map_p plate_E5_dry = [0, 0, 0, 0, 10, 0, 0, 0, 0] \<and>
   3 \<le> wd_width (worldDimension plate_E5_dry) \<and>
   wd_width (worldDimension plate_E5_dry) < 2 ^ 63 \<and>
   3 \<le> wd_height (worldDimension plate_E5_dry) \<and>
   wd_height (worldDimension plate_E5_dry) < 2 ^ 63 \<and>
   (\<forall>k. randsource plate_E5_dry k \<le> rand_max) \<and>
   (\<exists>p'. erode plate_E5_dry 0 = Inr p' \<and> map_p p' = [0, 0, 0, 0, 9, 0, 0, 0, 0] \<and>
         mass p' = 9)"
proof -
  have h: "width plate_E5_dry = 3" "height plate_E5_dry = 3"
    "map_p plate_E5_dry = [0, 0, 0, 0, 10, 0, 0, 0, 0]"
    "3 \<le> wd_width (worldDimension plate_E5_dry)"
    "wd_width (worldDimension plate_E5_dry) < 2 ^ 63"
    "3 \<le> wd_height (worldDimension plate_E5_dry)"
    "wd_height (worldDimension plate_E5_dry) < 2 ^ 63"
    "\<forall>k. randsource plate_E5_dry k \<le> rand_max"
    by (simp_all add: plate_E5_dry_fields world8_sides)
  have r: "real rand_max / real rand_max = 1" by (simp add: rand_max_def)
  have "2 / 10 * real rand_max / real rand_max = 2 / 10 * (real rand_max / real rand_max)"
    by simp
  then have v: "10 * (11 / 10 - 2 / 10 * real rand_max / real rand_max) = (9::real)"
    unfolding r by simp
  from erode_peak [OF h] obtain p' where "erode plate_E5_dry 0 = Inr p'"
    and "map_p p' = [0, 0, 0, 0, 9, 0, 0, 0, 0]" and "mass p' = 9"
    unfolding plate_E5_dry_fields v by blast
  with h show ?thesis by blast
qed

lemma E5_erode: "erode plate_E5 lb = Inr plate_E5_eroded"
proof -
  have h: "width plate_E5 = 3" "height plate_E5 = 3"
    "map_p plate_E5 = [0, 0, 0, 0, 10, 0, 0, 0, 0]"
    "3 \<le> wd_width (worldDimension plate_E5)" "wd_width (worldDimension plate_E5) < 2 ^ 63"
    "3 \<le> wd_height (worldDimension plate_E5)" "wd_height (worldDimension plate_E5) < 2 ^ 63"
    "\<forall>k. randsource plate_E5 k \<le> rand_max"
    by (simp_all add: plate_E5_fields world8_sides)
  have v: "11 = 10 * (11 / 10 - 2 / 10 * real (randsource plate_E5 (rand_pos plate_E5 + 4)) /
                       real rand_max)"
    by (simp add: plate_E5_fields)
  have e: "plate_E5\<lparr>rand_pos := rand_pos plate_E5 + 9, map_p := [0, 0, 0, 0, 11, 0, 0, 0, 0],
      mass := 11, cx := if (0::real) < 11 then 11 / 11 else 11,
      cy := if (0::real) < 11 then 11 / 11 else 11\<rparr> = plate_E5_eroded"
    by (simp add: plate_E5_eroded_def plate_E5_def)
  from erode_E5 [OF h v, of lb] show ?thesis unfolding e .
qed

lemma plate_E5_eroded_fields:
  "map_p plate_E5_eroded = [0, 0, 0, 0, 11, 0, 0, 0, 0]" "mass plate_E5_eroded = 11"
  by (simp_all add: plate_E5_eroded_def)

text \<open>
  C5, as stated, fails: when the generator draws 0 for the centre cell, \<open>erode(0)\<close> raises
  the centre from 10 to 11, leaves the four neighbours at height 0, and the mass is 11.
\<close>

theorem erode_peak_counterexample:
  "erode plate_E5 0 = Inr plate_E5_eroded \<and>
   width plate_E5 = 3 \<and> height plate_E5 = 3 \<and>
   map_p plate_E5 = [0, 0, 0, 0, 10, 0, 0, 0, 0] \<and> mass plate_E5 = 10 \<and>
   map_p plate_E5_eroded = [0, 0, 0, 0, 11, 0, 0, 0, 0] \<and>
   \<not> map_p plate_E5_eroded ! 4 < 10 \<and>
   \<not> map_p plate_E5_eroded ! 1 > 0 \<and> \<not> map_p plate_E5_eroded ! 3 > 0 \<and>
   \<not> map_p plate_E5_eroded ! 5 > 0 \<and> \<not> map_p plate_E5_eroded ! 7 > 0 \<and>
   mass plate_E5_eroded = 11"
  by (simp add: E5_erode plate_E5_fields plate_E5_eroded_fields)




























end
